theory Spec2Isabelle
  imports Main
begin

section \<open>Errors\<close>

text \<open>
  The objects of the JavaScript runtime that a read of a property can reach without the
  program having made them: the prototypes of the values that the parsers return, and the
  functions that these prototypes hold, named by the prototype and the property.
\<close>

datatype builtin =
    ObjectPrototype
  | ArrayPrototype
  | StringPrototype
  | NumberPrototype
  | BooleanPrototype
  | Method builtin string

text \<open>
  Every \<^verbatim>\<open>throw new Error(...)\<close> of the sources, and every exception that a library call
  of the sources can raise, is a value of this type.  The constructors carry the variable
  parts of the messages.  The last two are not exceptions.  They mark a run that this
  model does not follow: one that reads or writes the properties of an object of the
  runtime, whose state is shared by the whole process and is not held here, and one that
  sets the \<^verbatim>\<open>length\<close> of an array to another value.  Nothing is stated about such a run.
\<close>

datatype error =
    SecurityPolicyViolation string
      \<comment> \<open>\<^verbatim>\<open>FATAL: INSECURE: MD5 is not supported\<close> (or SHA1); the algorithm refused\<close>
  | DownloadFailed string nat
      \<comment> \<open>\<^verbatim>\<open>Failed to download file ...\<close>: the file's URL and the status received\<close>
  | IntegrityMismatch string string
      \<comment> \<open>\<^verbatim>\<open>File ... from ... has an invalid hash\<close>: the file's URL and the cache route\<close>
  | TransportError string
      \<comment> \<open>the promise of \<^verbatim>\<open>axios.get\<close> was rejected; the URL requested\<close>
  | DigestUnsupported string
      \<comment> \<open>\<^verbatim>\<open>crypto.createHash\<close> does not know the algorithm\<close>
  | FsError string
      \<comment> \<open>a call of the \<^verbatim>\<open>fs\<close> module failed on this path\<close>
  | ManifestParseError string string
      \<comment> \<open>\<^verbatim>\<open>Failed to parse flag list <name> from <url>\<close>\<close>
  | LocalManifestParseError string
      \<comment> \<open>\<^verbatim>\<open>Failed to parse flag list <file>\<close>\<close>
  | NotPreprocessed
      \<comment> \<open>\<^verbatim>\<open>Did not preprocess flags\<close>\<close>
  | NoFlagsFound
      \<comment> \<open>\<^verbatim>\<open>No flags found\<close>\<close>
  | NoRobloxVersions
      \<comment> \<open>\<^verbatim>\<open>No Roblox Versions found\<close>\<close>
  | RobloxVersionMissing string
      \<comment> \<open>\<^verbatim>\<open>Roblox Version does not exist: <path>\<close>\<close>
  | InvalidSelection string
      \<comment> \<open>\<^verbatim>\<open>Invalid flag value: <flag>\<close>\<close>
  | MissingConfigFragment string
      \<comment> \<open>\<^verbatim>\<open>Flag file does not exist: <path>\<close>\<close>
  | SyntaxError string
      \<comment> \<open>\<^verbatim>\<open>json5.parse\<close> rejected the text read from this path\<close>
  | TypeError
      \<comment> \<open>the JavaScript runtime's TypeError\<close>
  | Untracked builtin
      \<comment> \<open>the run went on inside this object of the runtime\<close>
  | UntrackedLength
      \<comment> \<open>the run set the length of an array to another length\<close>

section \<open>The file system and the network\<close>

text \<open>
  The file system is a map from paths to nodes.  Paths are compared as the strings the
  program builds; parent directories are not looked at (the program creates \<^verbatim>\<open>_cache\<close>
  in \<^verbatim>\<open>process\<close> before any download).  Strings are lists of 8-bit characters: the
  content of a file and the body of an answer are bytes, and a text is held in UTF-8, the
  encoding of the documents that the program reads, so that a character outside ASCII
  takes two to four elements.
\<close>

datatype node = File_node string | Dir_node

type_synonym fs = "string \<rightharpoonup> node"

definition existsSync :: "fs \<Rightarrow> string \<Rightarrow> bool" where
  "existsSync fs p = (fs p \<noteq> None)"

definition writeFileSync :: "fs \<Rightarrow> string \<Rightarrow> string \<Rightarrow> error + fs" where
  "writeFileSync fs p content =
     (case fs p of
        Some Dir_node \<Rightarrow> Inl (FsError p)
      | _ \<Rightarrow> Inr (fs(p \<mapsto> File_node content)))"

definition readFileSync :: "fs \<Rightarrow> string \<Rightarrow> error + string" where
  "readFileSync fs p =
     (case fs p of
        Some (File_node content) \<Rightarrow> Inr content
      | _ \<Rightarrow> Inl (FsError p))"

definition mkdirSync :: "fs \<Rightarrow> string \<Rightarrow> error + fs" where
  "mkdirSync fs p =
     (case fs p of
        None \<Rightarrow> Inr (fs(p \<mapsto> Dir_node))
      | Some _ \<Rightarrow> Inl (FsError p))"

text \<open>
  The network is a function of the URL: a request gets no answer, or an answer with a
  status and a body.  Every request made is recorded in the world, so that "no network
  call" is a statement about the record.
\<close>

datatype response = Rejected | Response nat string

text \<open>What \<^verbatim>\<open>console.warn\<close> and \<^verbatim>\<open>console.error\<close> have printed.\<close>

datatype console = ConsoleWarn string string | ConsoleError error

record world =
  files :: fs
  requests :: "string list"
  printed :: "console list"

section \<open>JavaScript values\<close>

text \<open>
  The values that the parsers return and that the program handles without a runtime type
  check (the casts \<^verbatim>\<open>as FlagList\<close>, \<^verbatim>\<open>as unknown as T & T2\<close> check nothing), and the
  objects of the runtime that reading a property of such a value can give.  Numbers are
  opaque to the program, so their type is a parameter; the length of an array is the one
  number that the runtime computes.

  A value is a tree, as a parser or a literal makes it: no object is part of two others
  or of itself.  An object is the list of its own enumerable properties in enumeration
  order.  An array is an object too: its properties are its indices, written in decimal,
  followed by whatever else has been assigned to it, and an index with no property is a
  hole.  New properties are appended, which is JavaScript's order for keys that are not
  array indices; it enumerates array indices first, in ascending order, as the arrays here
  have them.
\<close>

datatype 'n jv =
    JUndefined
  | JNull
  | JBool bool
  | JNum 'n
  | JStr string
  | JArr "(string \<times> 'n jv) list"
  | JObj "(string \<times> 'n jv) list"
  | JBuiltin builtin

definition digitChar :: "nat \<Rightarrow> char" where
  "digitChar n = ''0123456789'' ! (n mod 10)"

fun indexKey :: "nat \<Rightarrow> string" where
  "indexKey n = (if n < 10 then [digitChar n] else indexKey (n div 10) @ [digitChar n])"

text \<open>The array literal \<^verbatim>\<open>[x0, x1, ...]\<close>.\<close>

definition jsArray :: "'n jv list \<Rightarrow> 'n jv" where
  "jsArray xs = JArr (zip (map indexKey [0..<length xs]) xs)"

text \<open>
  The characters of a text in UTF-8: the first byte of a character tells how many bytes
  follow.  A character of four bytes is two UTF-16 code units, every other one is one.
\<close>

fun seqLen :: "char \<Rightarrow> nat" where
  "seqLen (Char b0 b1 b2 b3 b4 b5 b6 b7) =
     (if \<not> b7 then 1
      else if b6 \<and> \<not> b5 then 2
      else if b6 \<and> b5 \<and> \<not> b4 then 3
      else if b6 \<and> b5 \<and> b4 \<and> \<not> b3 then 4
      else 1)"

fun utf8Chars :: "string \<Rightarrow> string list" where
  "utf8Chars [] = []"
| "utf8Chars (c # s) = (c # take (seqLen c - 1) s) # utf8Chars (drop (seqLen c - 1) s)"

text \<open>
  The UTF-16 code units of a text, each as a text of its own: a character of four bytes
  is the code point \<open>c\<close> above \<open>0xFFFF\<close>, whose two units are the surrogates
  \<open>0xD800 + (c - 0x10000) div 1024\<close> and \<open>0xDC00 + (c - 0x10000) mod 1024\<close>, written in three
  bytes as every unit from \<open>0x800\<close> on.
\<close>

definition codePoint :: "string \<Rightarrow> nat" where
  "codePoint ch =
     (of_char (ch ! 0) mod 8) * 262144 + (of_char (ch ! 1) mod 64) * 4096
       + (of_char (ch ! 2) mod 64) * 64 + of_char (ch ! 3) mod 64"

definition surrogate :: "nat \<Rightarrow> string" where
  "surrogate u = [CHR 0xED, char_of (128 + (u div 64) mod 64), char_of (128 + u mod 64)]"

definition codeUnits :: "string \<Rightarrow> string list" where
  "codeUnits s =
     concat (map (\<lambda>ch. if length ch = 4
                         then [surrogate (55296 + (codePoint ch - 65536) div 1024),
                               surrogate (56320 + (codePoint ch - 65536) mod 1024)]
                       else [ch])
                 (utf8Chars s))"

text \<open>Own enumerable properties, as \<^verbatim>\<open>for ... in\<close> and object spread see them: a string
  has its code units, the other primitives and the objects of the runtime have none.\<close>

definition charProps :: "string \<Rightarrow> (string \<times> 'n jv) list" where
  "charProps s = zip (map indexKey [0..<length (codeUnits s)]) (map JStr (codeUnits s))"

fun ownProps :: "'n jv \<Rightarrow> (string \<times> 'n jv) list" where
  "ownProps (JObj ps) = ps"
| "ownProps (JArr ps) = ps"
| "ownProps (JStr s) = charProps s"
| "ownProps _ = []"

definition forInKeys :: "'n jv \<Rightarrow> string list" where
  "forInKeys v = map fst (ownProps v)"

text \<open>
  An array index is the decimal numeral, without leading zeros, of a number below
  \<open>2\<^sup>3\<^sup>2 - 1\<close>.  The \<^verbatim>\<open>length\<close> of an array is one more than its greatest index.
\<close>

definition digitValue :: "char \<Rightarrow> nat" where
  "digitValue c = of_char c - 48"

definition arrayIndex :: "string \<Rightarrow> nat option" where
  "arrayIndex s =
     (if s \<noteq> [] \<and> list_all (\<lambda>c. c \<in> set ''0123456789'') s \<and> (s = ''0'' \<or> hd s \<noteq> CHR ''0'')
         \<and> foldl (\<lambda>n c. 10 * n + digitValue c) 0 s < 4294967295
      then Some (foldl (\<lambda>n c. 10 * n + digitValue c) 0 s) else None)"

definition arrayLength :: "(string \<times> 'v) list \<Rightarrow> nat" where
  "arrayLength ps =
     fold (\<lambda>(k, v) n. case arrayIndex k of None \<Rightarrow> n | Some i \<Rightarrow> max n (Suc i)) ps 0"

text \<open>
  The names that a value inherits: the properties of \<^verbatim>\<open>Object.prototype\<close>, which every
  value that is not \<^verbatim>\<open>null\<close> or \<^verbatim>\<open>undefined\<close> reaches, and those of the prototypes of
  arrays, strings, numbers and booleans (ECMAScript 2023, as Node.js 20 has them).  All of
  them are functions but \<^verbatim>\<open>__proto__\<close>, an accessor that gives the prototype itself; none
  is enumerable.
\<close>

definition objectPrototypeNames :: "string list" where
  "objectPrototypeNames =
     [''constructor'', ''__defineGetter__'', ''__defineSetter__'', ''hasOwnProperty'',
      ''__lookupGetter__'', ''__lookupSetter__'', ''isPrototypeOf'', ''propertyIsEnumerable'',
      ''toString'', ''valueOf'', ''toLocaleString'']"

definition arrayPrototypeNames :: "string list" where
  "arrayPrototypeNames =
     [''constructor'', ''at'', ''concat'', ''copyWithin'', ''fill'', ''find'', ''findIndex'',
      ''findLast'', ''findLastIndex'', ''lastIndexOf'', ''pop'', ''push'', ''reverse'', ''shift'',
      ''unshift'', ''slice'', ''sort'', ''splice'', ''includes'', ''indexOf'', ''join'', ''keys'',
      ''entries'', ''values'', ''forEach'', ''filter'', ''flat'', ''flatMap'', ''map'', ''every'',
      ''some'', ''reduce'', ''reduceRight'', ''toLocaleString'', ''toString'', ''toReversed'',
      ''toSorted'', ''toSpliced'', ''with'']"

definition stringPrototypeNames :: "string list" where
  "stringPrototypeNames =
     [''constructor'', ''anchor'', ''at'', ''big'', ''blink'', ''bold'', ''charAt'',
      ''charCodeAt'', ''codePointAt'', ''concat'', ''endsWith'', ''fontcolor'', ''fontsize'',
      ''fixed'', ''includes'', ''indexOf'', ''isWellFormed'', ''italics'', ''lastIndexOf'',
      ''link'', ''localeCompare'', ''match'', ''matchAll'', ''normalize'', ''padEnd'',
      ''padStart'', ''repeat'', ''replace'', ''replaceAll'', ''search'', ''slice'', ''small'',
      ''split'', ''strike'', ''sub'', ''substr'', ''substring'', ''startsWith'', ''toString'',
      ''toWellFormed'', ''trim'', ''trimStart'', ''trimLeft'', ''trimEnd'', ''trimRight'',
      ''toLocaleLowerCase'', ''toLocaleUpperCase'', ''toLowerCase'', ''toUpperCase'',
      ''valueOf'']"

definition numberPrototypeNames :: "string list" where
  "numberPrototypeNames =
     [''constructor'', ''toExponential'', ''toFixed'', ''toPrecision'', ''toString'',
      ''valueOf'', ''toLocaleString'']"

definition booleanPrototypeNames :: "string list" where
  "booleanPrototypeNames = [''constructor'', ''toString'', ''valueOf'']"

fun prototypeNames :: "builtin \<Rightarrow> string list" where
  "prototypeNames ObjectPrototype = objectPrototypeNames"
| "prototypeNames ArrayPrototype = arrayPrototypeNames"
| "prototypeNames StringPrototype = stringPrototypeNames"
| "prototypeNames NumberPrototype = numberPrototypeNames"
| "prototypeNames BooleanPrototype = booleanPrototypeNames"
| "prototypeNames (Method b name) = []"

text \<open>What a value whose prototype is \<open>p\<close> finds under a name that it does not own.\<close>

definition inherited :: "builtin \<Rightarrow> string \<Rightarrow> 'n jv" where
  "inherited p key =
     (if key = ''__proto__'' then JBuiltin p
      else if key \<in> set (prototypeNames p) then JBuiltin (Method p key)
      else if key \<in> set objectPrototypeNames then JBuiltin (Method ObjectPrototype key)
      else JUndefined)"

text \<open>
  \<^verbatim>\<open>o[key]\<close>: a TypeError on \<^verbatim>\<open>null\<close> and \<^verbatim>\<open>undefined\<close>; otherwise the own property,
  the \<^verbatim>\<open>length\<close> of an array or a string, what the prototypes hold under the name, and
  \<^verbatim>\<open>undefined\<close> for a name that is nowhere.  The properties of the objects of the runtime
  are not held here.
\<close>

fun getProp :: "('n::semiring_1) jv \<Rightarrow> string \<Rightarrow> error + 'n jv" where
  "getProp JUndefined key = Inl TypeError"
| "getProp JNull key = Inl TypeError"
| "getProp (JBuiltin b) key = Inl (Untracked b)"
| "getProp (JObj ps) key =
     (case map_of ps key of Some x \<Rightarrow> Inr x | None \<Rightarrow> Inr (inherited ObjectPrototype key))"
| "getProp (JArr ps) key =
     (if key = ''length'' then Inr (JNum (of_nat (arrayLength ps)))
      else case map_of ps key of Some x \<Rightarrow> Inr x | None \<Rightarrow> Inr (inherited ArrayPrototype key))"
| "getProp (JStr s) key =
     (if key = ''length'' then Inr (JNum (of_nat (length (codeUnits s))))
      else case map_of (charProps s) key of
             Some x \<Rightarrow> Inr x
           | None \<Rightarrow> Inr (inherited StringPrototype key))"
| "getProp (JNum n) key = Inr (inherited NumberPrototype key)"
| "getProp (JBool b) key = Inr (inherited BooleanPrototype key)"

text \<open>Storing a property: the value of an existing key is replaced in place, a new key
  is appended.\<close>

fun assign :: "string \<Rightarrow> 'v \<Rightarrow> (string \<times> 'v) list \<Rightarrow> (string \<times> 'v) list" where
  "assign key v [] = [(key, v)]"
| "assign key v ((k, x) # ps) = (if k = key then (k, v) # ps else (k, x) # assign key v ps)"

text \<open>
  The setter of \<^verbatim>\<open>__proto__\<close>, which an assignment to that name reaches when the object
  does not own it: a value that is not an object and not \<^verbatim>\<open>null\<close> is ignored, and the
  prototype \<open>p\<close> that the object has already changes nothing.  Another prototype would
  change what the object inherits, which the values here have no place for.
\<close>

fun setPrototypeOf :: "'n jv \<Rightarrow> builtin \<Rightarrow> 'n jv \<Rightarrow> error + 'n jv" where
  "setPrototypeOf obj p JUndefined = Inr obj"
| "setPrototypeOf obj p (JBool b) = Inr obj"
| "setPrototypeOf obj p (JNum n) = Inr obj"
| "setPrototypeOf obj p (JStr s) = Inr obj"
| "setPrototypeOf obj p v = (if v = JBuiltin p then Inr obj else Inl (Untracked p))"

text \<open>
  \<^verbatim>\<open>o[key] = v\<close> in strict code (class bodies are strict).  On an object or an array the
  property is stored, but for \<^verbatim>\<open>__proto__\<close> when it is not an own property, and for the
  \<^verbatim>\<open>length\<close> of an array, where storing the length that the array has changes nothing
  (another value would cut the array, extend it or be refused, which is not followed).  On \<^verbatim>\<open>null\<close> and \<^verbatim>\<open>undefined\<close> it
  is a TypeError; on another primitive too, but for \<^verbatim>\<open>__proto__\<close>, whose setter
  returns without doing anything.
\<close>

fun setProp :: "('n::semiring_1) jv \<Rightarrow> string \<Rightarrow> 'n jv \<Rightarrow> error + 'n jv" where
  "setProp (JObj ps) key v =
     (if map_of ps key = None \<and> key = ''__proto__''
        then setPrototypeOf (JObj ps) ObjectPrototype v
      else Inr (JObj (assign key v ps)))"
| "setProp (JArr ps) key v =
     (if key = ''length''
        then (if v = JNum (of_nat (arrayLength ps)) then Inr (JArr ps) else Inl UntrackedLength)
      else if map_of ps key = None \<and> key = ''__proto__''
        then setPrototypeOf (JArr ps) ArrayPrototype v
      else Inr (JArr (assign key v ps)))"
| "setProp (JBuiltin b) key v = Inl (Untracked b)"
| "setProp JUndefined key v = Inl TypeError"
| "setProp JNull key v = Inl TypeError"
| "setProp obj key v = (if key = ''__proto__'' then Inr obj else Inl TypeError)"

text \<open>\<^verbatim>\<open>typeof v === 'object'\<close> holds of \<^verbatim>\<open>null\<close>, of arrays, of objects and of the
  prototypes; the type of a function is \<^verbatim>\<open>function\<close>.\<close>

fun typeofObject :: "'n jv \<Rightarrow> bool" where
  "typeofObject JNull = True"
| "typeofObject (JArr ps) = True"
| "typeofObject (JObj ps) = True"
| "typeofObject (JBuiltin (Method b name)) = False"
| "typeofObject (JBuiltin b) = True"
| "typeofObject _ = False"

text \<open>\<^verbatim>\<open>v ?? d\<close>.\<close>

definition nullish :: "'n jv \<Rightarrow> 'n jv \<Rightarrow> 'n jv" where
  "nullish v d = (if v = JNull \<or> v = JUndefined then d else v)"

section \<open>The libraries\<close>

text \<open>
  The functions of Node.js and of the packages that the program calls and whose
  computation is not its own:

  \<^item> \<open>toString_utf8\<close> is \<^verbatim>\<open>Buffer.prototype.toString('utf8')\<close>, the text of the bytes of a
    body (the bytes themselves when they are well-formed UTF-8);
  \<^item> the three parsers, \<open>None\<close> where they throw;
  \<^item> \<open>String_of\<close> is \<^verbatim>\<open>String(v)\<close>, which \<^verbatim>\<open>json5.parse\<close> applies to its argument before
    it reads it, \<open>None\<close> where the conversion throws;
  \<^item> \<open>Buffer_from\<close> is \<^verbatim>\<open>Buffer.from(v, 'binary')\<close>, the bytes of a string or of an array
    of numbers, \<open>None\<close> where it throws its TypeError (on \<^verbatim>\<open>null\<close>, a number, a
    boolean, an object that is not like an array);
  \<^item> \<open>createHash alg bytes\<close> is \<^verbatim>\<open>crypto.createHash(alg).update(bytes).digest('hex')\<close>,
    \<open>None\<close> when the algorithm is unknown to the runtime.
\<close>

record 'n libraries =
  toString_utf8 :: "string \<Rightarrow> string"
  json5_parse :: "string \<Rightarrow> 'n jv option"
  JSON_parse :: "string \<Rightarrow> 'n jv option"
  toml_parse :: "string \<Rightarrow> 'n jv option"
  String_of :: "'n jv \<Rightarrow> string option"
  Buffer_from :: "'n jv \<Rightarrow> string option"
  createHash :: "string \<Rightarrow> string \<Rightarrow> string option"

text \<open>
  \<^verbatim>\<open>axios.get(url)\<close>.  The promise is rejected when there is no answer and when
  \<^verbatim>\<open>validateStatus\<close> refuses the status, which by default is every status outside 200 to
  299.  Without a \<^verbatim>\<open>responseType\<close> the body is decoded as UTF-8, a byte order mark is
  removed, and \<^verbatim>\<open>transformResponse\<close> replaces a text that is not empty and that
  \<^verbatim>\<open>JSON.parse\<close> accepts by the value parsed: \<^verbatim>\<open>data\<close> is a text only when the body is
  not JSON.  With \<^verbatim>\<open>responseType: 'arraybuffer'\<close> \<^verbatim>\<open>data\<close> is the bytes of the body.
\<close>

datatype 'd answer = AxiosError | Answer nat 'd

definition validateStatus :: "nat \<Rightarrow> bool" where
  "validateStatus status = (200 \<le> status \<and> status < 300)"

definition stripBOM :: "string \<Rightarrow> string" where
  "stripBOM s = (if take 3 s = [CHR 0xEF, CHR 0xBB, CHR 0xBF] then drop 3 s else s)"

definition transformResponse :: "'n libraries \<Rightarrow> string \<Rightarrow> 'n jv" where
  "transformResponse lib content =
     (if content = [] then JStr content
      else case JSON_parse lib content of None \<Rightarrow> JStr content | Some v \<Rightarrow> v)"

definition axios_get ::
  "(string \<Rightarrow> response) \<Rightarrow> 'n libraries \<Rightarrow> world \<Rightarrow> string \<Rightarrow> 'n jv answer \<times> world" where
  "axios_get net lib w url =
     (case net url of
        Rejected \<Rightarrow> AxiosError
      | Response status body \<Rightarrow>
          if validateStatus status
            then Answer status (transformResponse lib (stripBOM (toString_utf8 lib body)))
          else AxiosError,
      w\<lparr>requests := requests w @ [url]\<rparr>)"

definition axios_get_arraybuffer ::
  "(string \<Rightarrow> response) \<Rightarrow> world \<Rightarrow> string \<Rightarrow> string answer \<times> world" where
  "axios_get_arraybuffer net w url =
     (case net url of
        Rejected \<Rightarrow> AxiosError
      | Response status body \<Rightarrow> if validateStatus status then Answer status body else AxiosError,
      w\<lparr>requests := requests w @ [url]\<rparr>)"

section \<open>File references and the download cache\<close>

record FileHash =
  algorithm :: string
  digest :: string
    \<comment> \<open>\<^verbatim>\<open>null\<close> in the variant \<^verbatim>\<open>algorithm: 'none'\<close>, where the code never reads it\<close>

record File =
  file_f :: string
  file_h :: FileHash

text \<open>
  \<^verbatim>\<open>String.prototype.toUpperCase\<close>, character by character.  The ASCII letters are put
  in upper case, and so are the characters outside ASCII whose upper case is made of
  ASCII letters: the long s (U+017F) gives S, the dotless i (U+0131) gives I, the sharp s
  (U+00DF) gives SS, and the ligatures U+FB00 to U+FB06 give FF, FI, FL, FFI, FFL, ST and
  ST.  Every other character is left as it is: its upper case has a character outside
  ASCII, as it has itself, so the result is equal to an ASCII word exactly when the upper
  case of the text is.
\<close>

fun upperChar :: "char \<Rightarrow> char" where
  "upperChar (Char b0 b1 b2 b3 b4 b5 b6 b7) =
     (let n = (of_char (Char b0 b1 b2 b3 b4 b5 b6 b7) :: nat)
      in if 97 \<le> n \<and> n \<le> 122 then Char b0 b1 b2 b3 b4 False b6 b7
         else Char b0 b1 b2 b3 b4 b5 b6 b7)"

definition upperOf :: "string \<Rightarrow> string" where
  "upperOf ch =
     (if ch = [CHR 0xC5, CHR 0xBF] then ''S''
      else if ch = [CHR 0xC4, CHR 0xB1] then ''I''
      else if ch = [CHR 0xC3, CHR 0x9F] then ''SS''
      else if ch = [CHR 0xEF, CHR 0xAC, CHR 0x80] then ''FF''
      else if ch = [CHR 0xEF, CHR 0xAC, CHR 0x81] then ''FI''
      else if ch = [CHR 0xEF, CHR 0xAC, CHR 0x82] then ''FL''
      else if ch = [CHR 0xEF, CHR 0xAC, CHR 0x83] then ''FFI''
      else if ch = [CHR 0xEF, CHR 0xAC, CHR 0x84] then ''FFL''
      else if ch = [CHR 0xEF, CHR 0xAC, CHR 0x85] then ''ST''
      else if ch = [CHR 0xEF, CHR 0xAC, CHR 0x86] then ''ST''
      else map upperChar ch)"

definition toUpperCase :: "string \<Rightarrow> string" where
  "toUpperCase s = concat (map upperOf (utf8Chars s))"

text \<open>
  \<^verbatim>\<open>FlagListPreprocessor.downloadFile\<close>.  The result is the value returned or the error
  thrown, with the world after the call.  In the branch of a named algorithm the request
  is made without a \<^verbatim>\<open>responseType\<close>, so what \<^verbatim>\<open>Buffer.from\<close> receives is the
  \<^verbatim>\<open>data\<close> that axios has made of the body; in the branch of \<^verbatim>\<open>none\<close> it is the bytes.
\<close>

definition downloadFile ::
  "(string \<Rightarrow> response) \<Rightarrow> 'n libraries \<Rightarrow> world \<Rightarrow> File \<Rightarrow> string \<Rightarrow>
     (error + string) \<times> world" where
  "downloadFile net lib w file0 baseUrl =
     (let file = file0\<lparr>file_f := baseUrl @ file_f file0\<rparr> in
      if toUpperCase (algorithm (file_h file)) = ''MD5''
        then (Inl (SecurityPolicyViolation ''MD5''), w)
      else if toUpperCase (algorithm (file_h file)) = ''SHA1''
        then (Inl (SecurityPolicyViolation ''SHA1''), w)
      else if algorithm (file_h file) \<noteq> ''none'' then
        (let fileRoute = ''_cache/'' @ digest (file_h file) in
         if existsSync (files w) fileRoute then (Inr fileRoute, w)
         else
           (case axios_get net lib w fileRoute of
              (AxiosError, w1) \<Rightarrow> (Inl (TransportError fileRoute), w1)
            | (Answer status content, w1) \<Rightarrow>
                if status \<noteq> 200 then (Inl (DownloadFailed (file_f file) status), w1)
                else
                  (case Buffer_from lib content of
                     None \<Rightarrow> (Inl TypeError, w1)
                   | Some fileBuffer \<Rightarrow>
                       (case createHash lib (algorithm (file_h file)) fileBuffer of
                          None \<Rightarrow> (Inl (DigestUnsupported (algorithm (file_h file))), w1)
                        | Some fileHash \<Rightarrow>
                            if fileHash \<noteq> digest (file_h file)
                              then (Inl (IntegrityMismatch (file_f file) fileRoute), w1)
                            else
                              (case writeFileSync (files w1) fileRoute fileBuffer of
                                 Inl e \<Rightarrow> (Inl e, w1)
                               | Inr fs' \<Rightarrow> (Inr fileRoute, w1\<lparr>files := fs'\<rparr>))))))
      else
        (case axios_get_arraybuffer net w (file_f file) of
           (AxiosError, w1) \<Rightarrow> (Inl (TransportError (file_f file)), w1)
         | (Answer status content, w1) \<Rightarrow>
             if status \<noteq> 200 then (Inl (DownloadFailed (file_f file) status), w1)
             else
               (case createHash lib ''SHA512'' content of
                  None \<Rightarrow> (Inl (DigestUnsupported ''SHA512''), w1)
                | Some fileHash \<Rightarrow>
                    (case writeFileSync (files w1) (''_cache/'' @ fileHash) content of
                       Inl e \<Rightarrow> (Inl e, w1)
                     | Inr fs' \<Rightarrow> (Inr (''_cache/'' @ fileHash), w1\<lparr>files := fs'\<rparr>)))))"

section \<open>The defaulting utility\<close>

text \<open>
  What a read of the defaults finds is smaller than the defaults, an object of the
  runtime being smaller than everything else: the recursion ends.
\<close>

fun weight :: "'n jv \<Rightarrow> nat" where
  "weight (JBuiltin b) = 0"
| "weight v = Suc (size v)"

lemma size_map_of_less:
  "map_of ps key = Some d \<Longrightarrow> size d < Suc (size_list (size_prod (\<lambda>_. 0) size) ps)"
  by (induction ps) (auto split: if_splits)

lemma map_of_charProps:
  "map_of (charProps s) key = Some d \<Longrightarrow> \<exists>c. d = JStr c"
  apply (drule map_of_SomeD)
  apply (simp only: charProps_def)
  apply (drule set_zip_rightD)
  apply auto
  done

lemma typeofObject_inherited:
  "typeofObject (inherited p key :: 'n jv) \<Longrightarrow> (inherited p key :: 'n jv) = JBuiltin p"
  by (simp add: inherited_def split: if_splits)

lemma weight_map_of_less:
  "map_of ps key = Some d \<Longrightarrow> weight d < Suc (Suc (size_list (size_prod (\<lambda>_. 0) size) ps))"
  by (cases d) (auto dest: size_map_of_less)

lemma weight_getProp_less:
  "getProp dflt key = Inr d \<Longrightarrow> typeofObject d \<Longrightarrow> weight d < weight dflt"
  apply (cases dflt)
         apply (auto split: option.splits if_splits dest!: typeofObject_inherited
                     dest: weight_map_of_less map_of_charProps)
  done

text \<open>
  \<^verbatim>\<open>FlagListPreprocessor.defaultRecursive\<close>.  The object \<^verbatim>\<open>objJoint\<close> is \<^verbatim>\<open>obj\<close> itself,
  assigned to in place and returned: the value computed here is at once the result and
  the state of the first argument after the call.  \<open>defaultLoop\<close> is the
  \<^verbatim>\<open>for (const key in defaultObj)\<close> loop over the keys that remain.  The body reads
  \<^verbatim>\<open>objJoint[key]\<close> first, which throws on \<^verbatim>\<open>null\<close>; the reads of \<^verbatim>\<open>defaultObj[key]\<close>, for
  a key that the loop has just produced, cannot throw, so the model makes one read of
  each.  The two arguments are separate values here; in JavaScript the result shares
  with the defaults the entries it has taken from them.
\<close>

function defaultRecursive :: "('n::semiring_1) jv \<Rightarrow> 'n jv \<Rightarrow> error + 'n jv"
  and defaultLoop :: "'n jv \<Rightarrow> 'n jv \<Rightarrow> string list \<Rightarrow> error + 'n jv" where
  "defaultRecursive obj defaultObj = defaultLoop obj defaultObj (forInKeys defaultObj)"
| "defaultLoop objJoint defaultObj [] = Inr objJoint"
| "defaultLoop objJoint defaultObj (key # keys) =
     (case getProp objJoint key of
        Inl e \<Rightarrow> Inl e
      | Inr v \<Rightarrow>
          (case getProp defaultObj key of
             Inl e \<Rightarrow> Inl e
           | Inr d \<Rightarrow>
               if typeofObject v \<and> typeofObject d then
                 (case defaultRecursive v d of
                    Inl e \<Rightarrow> Inl e
                  | Inr r \<Rightarrow>
                      (case setProp objJoint key r of
                         Inl e \<Rightarrow> Inl e
                       | Inr objJoint' \<Rightarrow> defaultLoop objJoint' defaultObj keys))
               else
                 (case setProp objJoint key (nullish v d) of
                    Inl e \<Rightarrow> Inl e
                  | Inr objJoint' \<Rightarrow> defaultLoop objJoint' defaultObj keys)))"
  by pat_completeness auto
termination
  apply (relation "measures
        [\<lambda>x. case x of Inl (obj, dflt) \<Rightarrow> weight dflt | Inr (obj, dflt, keys) \<Rightarrow> weight dflt,
         \<lambda>x. case x of Inl (obj, dflt) \<Rightarrow> Suc (length (forInKeys dflt))
                      | Inr (obj, dflt, keys) \<Rightarrow> length keys]")
      apply simp
     apply simp
    apply (simp add: weight_getProp_less)
   apply simp
  apply simp
  done

subsection \<open>Notions used to state what the utility does\<close>

text \<open>An object or an array, and the same kind of value with other properties.\<close>

definition isRecord :: "'n jv \<Rightarrow> bool" where
  "isRecord v = (case v of JObj ps \<Rightarrow> True | JArr ps \<Rightarrow> True | _ \<Rightarrow> False)"

fun withProps :: "'n jv \<Rightarrow> (string \<times> 'n jv) list \<Rightarrow> 'n jv" where
  "withProps (JArr old) ps = JArr ps"
| "withProps v ps = JObj ps"

text \<open>
  The keys under which an object or an array does not answer with an entry of its own and
  does not store one: the \<^verbatim>\<open>length\<close> of an array, and \<^verbatim>\<open>__proto__\<close> when it is
  inherited.  What a value gives under a key, and the object after the assignment of the
  loop's body: as it was under such a key, and with the entry stored under any other.
\<close>

definition reserved :: "'n jv \<Rightarrow> string \<Rightarrow> bool" where
  "reserved obj key =
     ((key = ''length'' \<and> (case obj of JArr ps \<Rightarrow> True | _ \<Rightarrow> False))
      \<or> (key = ''__proto__'' \<and> map_of (ownProps obj) key = None))"

definition readOf :: "('n::semiring_1) jv \<Rightarrow> string \<Rightarrow> 'n jv" where
  "readOf obj key = (case getProp obj key of Inl e \<Rightarrow> JUndefined | Inr v \<Rightarrow> v)"

definition written :: "'n jv \<Rightarrow> string \<Rightarrow> 'n jv \<Rightarrow> 'n jv" where
  "written obj key x =
     (if reserved obj key then obj else withProps obj (assign key x (ownProps obj)))"


text \<open>What an entry of the result is, from the entry \<open>v\<close> of the value and the entry
  \<open>d\<close> of the defaults: the two branches of the loop's body.\<close>

definition mergedEntry :: "('n::semiring_1) jv \<Rightarrow> 'n jv \<Rightarrow> error + 'n jv" where
  "mergedEntry v d =
     (if typeofObject v \<and> typeofObject d then defaultRecursive v d else Inr (nullish v d))"

text \<open>
  A \<^verbatim>\<open>null\<close> faces an object: for some key of the defaults, what the value and the
  defaults give under the key are both of type \<^verbatim>\<open>object\<close>, and either what the value
  gives is \<^verbatim>\<open>null\<close>, or a prototype (under \<^verbatim>\<open>__proto__\<close>), while the entry of the
  defaults has a property, or the same holds further down in these two entries.
\<close>

function nullFacesObject :: "('n::semiring_1) jv \<Rightarrow> 'n jv \<Rightarrow> bool" where
  "nullFacesObject obj dflt =
     list_ex
       (\<lambda>key. case getProp obj key of
                 Inl e \<Rightarrow> False
               | Inr v \<Rightarrow>
                   (case getProp dflt key of
                      Inl e \<Rightarrow> False
                    | Inr d \<Rightarrow>
                        if typeofObject v \<and> typeofObject d
                          then (if isRecord v then nullFacesObject v d else forInKeys d \<noteq> [])
                        else False))
       (forInKeys dflt)"
  by pat_completeness auto
termination
  apply (relation "measure (\<lambda>(obj, dflt). weight dflt)")
   apply simp
  apply (simp add: weight_getProp_less)
  done


section \<open>Loading the configuration\<close>

text \<open>The literal \<^verbatim>\<open>defaultConfig\<close> of \<^verbatim>\<open>loadConfig\<close>.\<close>

definition defaultConfig :: "'n jv" where
  "defaultConfig =
     JObj [
       (''dev'', JBool False),
       (''hashChecks'', JObj [(''update'', JBool False), (''flags'', JBool False)]),
       (''urls'', JObj [
          (''flagLists'', jsArray []),
          (''defaultFlagList'', JObj [
             (''name'', JStr ''Default Flags''),
             (''url'', JStr ''https://raw.githubusercontent.com/rbxflags/Flags/main/flaglists.json5'')]),
          (''updater'', JStr ''https://rfo.sh/updater/updater.json5'')])]"

text \<open>\<^verbatim>\<open>loadConfig\<close>: \<open>parse\<close> is \<^verbatim>\<open>json5.parse\<close>, \<open>None\<close> where it throws.\<close>

definition loadConfig ::
  "(string \<Rightarrow> ('n::semiring_1) jv option) \<Rightarrow> fs \<Rightarrow> string \<Rightarrow> error + 'n jv" where
  "loadConfig parse fs configFile =
     (if existsSync fs configFile then
        (case readFileSync fs configFile of
           Inl e \<Rightarrow> Inl e
         | Inr text \<Rightarrow>
             (case parse text of
                None \<Rightarrow> Inl (SyntaxError configFile)
              | Some configData \<Rightarrow> defaultRecursive configData defaultConfig))
      else defaultRecursive (JObj []) defaultConfig)"

section \<open>The manifest loader\<close>

text \<open>An entry of \<^verbatim>\<open>config.urls\<close>, and the part of the typed configuration that the
  loader reads.\<close>

record flagListUrl =
  url_name :: string
  url :: string

record Urls =
  urls_flagLists :: "flagListUrl list"
  urls_defaultFlagList :: flagListUrl

record Config =
  urls :: Urls

text \<open>The preprocessor object.  A manifest is the value that the parser returned: the
  cast \<^verbatim>\<open>as FlagList\<close> checks nothing.\<close>

record 'n preprocessor =
  flagListDir :: string
  config :: Config
  flagLists :: "'n jv list"











section \<open>Processed flag lists and the selection of files\<close>

text \<open>
  \<^verbatim>\<open>ProcessedFeature\<close> is a union discriminated by \<^verbatim>\<open>multiple\<close>.  A
  \<^verbatim>\<open>Record<string, ...>\<close> is the list of its entries in the order in which they were
  created, no name twice.  \<^verbatim>\<open>Object.values\<close> enumerates the entries whose names are array
  indices first, by ascending index, and then the others in the order of their creation.
\<close>

datatype ProcessedFeature =
    Multiple (feature_name: string) (options: "(string \<times> string list) list")
      (feature_defaults: "string list") (feature_values: "string list") (feature_min: int) (feature_max: int)
  | Single (feature_name: string) (options: "(string \<times> string list) list")
      (feature_default: string) (feature_value: string)

record ProcessedFlagListItem =
  item_name :: string
  baseurl :: string
  item_default :: bool
  enabled :: bool
  base :: "string list"
  features :: "ProcessedFeature list"

type_synonym ProcessedFlagList = "(string \<times> ProcessedFlagListItem) list"

record RFO =
  processedFlagList :: "ProcessedFlagList list"
  robloxPaths :: "string list"

definition Object_values :: "(string \<times> 'a) list \<Rightarrow> 'a list" where
  "Object_values ps =
     map snd (sort_key (\<lambda>p. the (arrayIndex (fst p))) (filter (\<lambda>p. arrayIndex (fst p) \<noteq> None) ps)
              @ filter (\<lambda>p. arrayIndex (fst p) = None) ps)"

text \<open>
  \<^verbatim>\<open>record[key]\<close> on a record of the program, an object whose prototype is
  \<^verbatim>\<open>Object.prototype\<close>: the own entry, or what the prototype holds under the name (a
  function, or the prototype itself under \<^verbatim>\<open>__proto__\<close>), or \<^verbatim>\<open>undefined\<close>.
\<close>

datatype 'a property = Own 'a | Inherited builtin | Absent

definition recordProperty :: "(string \<times> 'a) list \<Rightarrow> string \<Rightarrow> 'a property" where
  "recordProperty ps key =
     (case map_of ps key of
        Some x \<Rightarrow> Own x
      | None \<Rightarrow>
          if key = ''__proto__'' then Inherited ObjectPrototype
          else if key \<in> set objectPrototypeNames then Inherited (Method ObjectPrototype key)
          else Absent)"

definition hasProcessedFlags :: "RFO \<Rightarrow> bool" where
  "hasProcessedFlags this = (length (processedFlagList this) > 0)"

text \<open>
  The loop \<^verbatim>\<open>for (const flag of feature.value)\<close> of a feature with several choices;
  \<open>flagFiles\<close> is the array that \<^verbatim>\<open>getFlagFiles\<close> pushes to.  What the options inherit
  under the name is truthy and cannot be iterated: the spread in \<^verbatim>\<open>push(...optionFiles)\<close>
  throws a TypeError.
\<close>

fun pushSelected ::
  "(string \<times> string list) list \<Rightarrow> string list \<Rightarrow> string list \<Rightarrow> error + string list" where
  "pushSelected opts [] flagFiles = Inr flagFiles"
| "pushSelected opts (flag # rest) flagFiles =
     (case recordProperty opts flag of
        Absent \<Rightarrow> Inl (InvalidSelection flag)
      | Inherited b \<Rightarrow> Inl TypeError
      | Own optionFiles \<Rightarrow> pushSelected opts rest (flagFiles @ optionFiles))"

text \<open>The callback of \<^verbatim>\<open>list.features.forEach\<close>.  A string is truthy when it is not
  empty; an array, also the empty one, is truthy, and so is what the options inherit.\<close>

fun pushFeature :: "ProcessedFeature \<Rightarrow> string list \<Rightarrow> error + string list" where
  "pushFeature (Multiple name opts dflt value mn mx) flagFiles = pushSelected opts value flagFiles"
| "pushFeature (Single name opts dflt value) flagFiles =
     (if value \<noteq> [] \<and> recordProperty opts value \<noteq> Absent
        then (case recordProperty opts value of
                Own optionFiles \<Rightarrow> Inr (flagFiles @ optionFiles)
              | Inherited b \<Rightarrow> Inl TypeError
              | Absent \<Rightarrow> Inr flagFiles)
      else Inr flagFiles)"

fun forEachFeature :: "ProcessedFeature list \<Rightarrow> string list \<Rightarrow> error + string list" where
  "forEachFeature [] flagFiles = Inr flagFiles"
| "forEachFeature (feature # rest) flagFiles =
     (case pushFeature feature flagFiles of
        Inl e \<Rightarrow> Inl e
      | Inr flagFiles' \<Rightarrow> forEachFeature rest flagFiles')"

text \<open>The loop over \<^verbatim>\<open>Object.values(flagLists)\<close> and the loop over
  \<^verbatim>\<open>this.processedFlagList\<close>.\<close>

fun forEachItem :: "ProcessedFlagListItem list \<Rightarrow> string list \<Rightarrow> error + string list" where
  "forEachItem [] flagFiles = Inr flagFiles"
| "forEachItem (list # rest) flagFiles =
     (if enabled list then
        (case forEachFeature (features list) (flagFiles @ base list) of
           Inl e \<Rightarrow> Inl e
         | Inr flagFiles' \<Rightarrow> forEachItem rest flagFiles')
      else forEachItem rest flagFiles)"

fun forEachFlagList :: "ProcessedFlagList list \<Rightarrow> string list \<Rightarrow> error + string list" where
  "forEachFlagList [] flagFiles = Inr flagFiles"
| "forEachFlagList (flagList # rest) flagFiles =
     (case forEachItem (Object_values flagList) flagFiles of
        Inl e \<Rightarrow> Inl e
      | Inr flagFiles' \<Rightarrow> forEachFlagList rest flagFiles')"

definition getFlagFiles :: "RFO \<Rightarrow> error + string list" where
  "getFlagFiles this =
     (if \<not> hasProcessedFlags this then Inl NotPreprocessed
      else if length (processedFlagList this) = 0 then Inl NoFlagsFound
      else forEachFlagList (processedFlagList this) [])"

section \<open>Merging the selected files\<close>

text \<open>The object spread \<^verbatim>\<open>{...merged, ...parsed}\<close>: the properties of \<open>merged\<close>, then the
  own enumerable properties of what was parsed, each assigned in turn.\<close>

fun assignAll :: "(string \<times> 'v) list \<Rightarrow> (string \<times> 'v) list \<Rightarrow> (string \<times> 'v) list" where
  "assignAll merged [] = merged"
| "assignAll merged ((key, v) # ps) = assignAll (assign key v merged) ps"

definition spread :: "(string \<times> 'n jv) list \<Rightarrow> 'n jv \<Rightarrow> (string \<times> 'n jv) list" where
  "spread merged parsed = assignAll (assignAll [] merged) (ownProps parsed)"

text \<open>The loop of \<^verbatim>\<open>mergeFlagFiles\<close> over the files that remain; \<open>parse\<close> is
  \<^verbatim>\<open>json5.parse\<close>, \<open>None\<close> where it throws.\<close>

fun mergeEach ::
  "(string \<Rightarrow> 'n jv option) \<Rightarrow> fs \<Rightarrow> (string \<times> 'n jv) list \<Rightarrow> string list \<Rightarrow>
     error + (string \<times> 'n jv) list" where
  "mergeEach parse fs merged [] = Inr merged"
| "mergeEach parse fs merged (flagFile # rest) =
     (if \<not> existsSync fs flagFile then Inl (MissingConfigFragment flagFile)
      else
        (case readFileSync fs flagFile of
           Inl e \<Rightarrow> Inl e
         | Inr text \<Rightarrow>
             (case parse text of
                None \<Rightarrow> Inl (SyntaxError flagFile)
              | Some parsed \<Rightarrow> mergeEach parse fs (spread merged parsed) rest)))"

text \<open>\<^verbatim>\<open>mergeFlagFiles\<close>; the argument \<open>None\<close> is the call without an argument, which
  evaluates the default \<^verbatim>\<open>this.getFlagFiles()\<close>.\<close>

definition mergeFlagFiles ::
  "(string \<Rightarrow> 'n jv option) \<Rightarrow> fs \<Rightarrow> RFO \<Rightarrow> string list option \<Rightarrow>
     error + (string \<times> 'n jv) list" where
  "mergeFlagFiles parse fs this arg =
     (case (case arg of None \<Rightarrow> getFlagFiles this | Some given \<Rightarrow> Inr given) of
        Inl e \<Rightarrow> Inl e
      | Inr flagFiles \<Rightarrow> mergeEach parse fs [] flagFiles)"

text \<open>\<^verbatim>\<open>dumpFlags\<close>: the parsed content of every file under its path.\<close>

fun dumpEach ::
  "(string \<Rightarrow> 'n jv option) \<Rightarrow> fs \<Rightarrow> (string \<times> 'n jv) list \<Rightarrow> string list \<Rightarrow>
     error + (string \<times> 'n jv) list" where
  "dumpEach parse fs merged [] = Inr merged"
| "dumpEach parse fs merged (flagFile # rest) =
     (if \<not> existsSync fs flagFile then Inl (MissingConfigFragment flagFile)
      else
        (case readFileSync fs flagFile of
           Inl e \<Rightarrow> Inl e
         | Inr text \<Rightarrow>
             (case parse text of
                None \<Rightarrow> Inl (SyntaxError flagFile)
              | Some parsed \<Rightarrow> dumpEach parse fs (assign flagFile parsed merged) rest)))"

definition dumpFlags ::
  "(string \<Rightarrow> 'n jv option) \<Rightarrow> fs \<Rightarrow> RFO \<Rightarrow> string list option \<Rightarrow>
     error + (string \<times> 'n jv) list" where
  "dumpFlags parse fs this arg =
     (case (case arg of None \<Rightarrow> getFlagFiles this | Some given \<Rightarrow> Inr given) of
        Inl e \<Rightarrow> Inl e
      | Inr flagFiles \<Rightarrow> dumpEach parse fs [] flagFiles)"

text \<open>\<^verbatim>\<open>applyFlags\<close>: \<open>stringify\<close> is \<^verbatim>\<open>JSON.stringify(merged, null, 2)\<close>.  The file
  system is returned with the error, since the loop may have written to it before throwing.\<close>

fun writeEach ::
  "string \<Rightarrow> fs \<Rightarrow> string list \<Rightarrow> (error + unit) \<times> fs" where
  "writeEach document fs [] = (Inr (), fs)"
| "writeEach document fs (robloxPath # rest) =
     (if \<not> existsSync fs robloxPath then (Inl (RobloxVersionMissing robloxPath), fs)
      else
        (case (if \<not> existsSync fs (robloxPath @ ''/ClientSettings'')
                 then mkdirSync fs (robloxPath @ ''/ClientSettings'') else Inr fs) of
           Inl e \<Rightarrow> (Inl e, fs)
         | Inr fs1 \<Rightarrow>
             (case writeFileSync fs1 (robloxPath @ ''/ClientSettings/ClientAppSettings.json'')
                     document of
                Inl e \<Rightarrow> (Inl e, fs1)
              | Inr fs2 \<Rightarrow> writeEach document fs2 rest)))"

definition applyFlags ::
  "(string \<Rightarrow> 'n jv option) \<Rightarrow> ((string \<times> 'n jv) list \<Rightarrow> string) \<Rightarrow> fs \<Rightarrow> RFO \<Rightarrow>
     (error + unit) \<times> fs" where
  "applyFlags parse stringify fs this =
     (if length (robloxPaths this) = 0 then (Inl NoRobloxVersions, fs)
      else if length (processedFlagList this) = 0 then (Inl NoFlagsFound, fs)
      else
        (case getFlagFiles this of
           Inl e \<Rightarrow> (Inl e, fs)
         | Inr flagFiles \<Rightarrow>
             (case mergeFlagFiles parse fs this (Some flagFiles) of
                Inl e \<Rightarrow> (Inl e, fs)
              | Inr merged \<Rightarrow> writeEach (stringify merged) fs (robloxPaths this))))"

section \<open>The selection and the merge as the specification words them\<close>


text \<open>
  The files that a selected value stands for: the files of the option of that name; a
  TypeError when the options have no such entry but inherit the name; and, when the name
  is nowhere, the invalid selection for a feature with several choices and nothing for a
  feature with a single choice.
\<close>

definition optionFiles :: "bool \<Rightarrow> (string \<times> string list) list \<Rightarrow> string \<Rightarrow> error + string list" where
  "optionFiles multiple opts flag =
     (case map_of opts flag of
        Some fs \<Rightarrow> Inr fs
      | None \<Rightarrow>
          if flag = ''__proto__'' \<or> flag \<in> set objectPrototypeNames then Inl TypeError
          else if multiple then Inl (InvalidSelection flag)
          else Inr [])"





text \<open>
  Last file wins: the value of a key in the merged document is its value in the last of
  the documents that has the key.
\<close>

fun lastWins :: "'n jv list \<Rightarrow> string \<Rightarrow> 'n jv option" where
  "lastWins [] key = None"
| "lastWins (d # ds) key =
     (case lastWins ds key of Some v \<Rightarrow> Some v | None \<Rightarrow> map_of (ownProps d) key)"

text \<open>A path that holds a file whose text parses to the document \<open>d\<close>, an object with
  no name twice.\<close>

definition readsAs :: "(string \<Rightarrow> 'n jv option) \<Rightarrow> fs \<Rightarrow> string \<Rightarrow> 'n jv \<Rightarrow> bool" where
  "readsAs parse fs path d =
     (case fs path of
        Some (File_node text) \<Rightarrow> parse text = Some d \<and> distinct (map fst (ownProps d))
      | _ \<Rightarrow> False)"

section \<open>The outcome of one remote source\<close>




text \<open>
  Libraries for the examples.  The parser of JSON accepts the empty object; the parser of
  JSON5 accepts it too, also with a comment inside, which JSON does not allow.
  \<^verbatim>\<open>String\<close> gives a string as it is and \<^verbatim>\<open>[object Object]\<close> for an object that has no
  \<^verbatim>\<open>toString\<close> of its own; \<^verbatim>\<open>Buffer.from\<close> gives the bytes of an ASCII string and
  throws on an object that has no \<^verbatim>\<open>length\<close>.  The examples apply them to nothing else.
\<close>

definition exampleLibraries :: "int libraries" where
  "exampleLibraries =
     \<lparr>toString_utf8 = (\<lambda>bytes. bytes),
      json5_parse = (\<lambda>s. if s = ''{}'' \<or> s = ''{/**/}'' then Some (JObj []) else None),
      JSON_parse = (\<lambda>s. if s = ''{}'' then Some (JObj []) else None),
      toml_parse = (\<lambda>s. None),
      String_of = (\<lambda>v. case v of
                         JStr s \<Rightarrow> Some s
                       | JObj ps \<Rightarrow> if map_of ps ''toString'' = None then Some ''[object Object]''
                                   else None
                       | _ \<Rightarrow> None),
      Buffer_from = (\<lambda>v. case v of JStr s \<Rightarrow> Some s | _ \<Rightarrow> None),
      createHash = (\<lambda>alg bytes. Some ''abc'')\<rparr>"


section \<open>Properties of the download cache\<close>

text \<open>
  Claim C1.  For a file whose algorithm is a named digest algorithm and whose digest is
  not in the cache, the bytes are to be fetched from \<open>baseUrl\<close> followed by the file's
  path.  The code builds that URL in \<^verbatim>\<open>file.f\<close> and then requests \<^verbatim>\<open>fileRoute\<close>, the
  path of the cache entry: with a server that holds the file at its URL and nothing
  else, the only request made is for \<^verbatim>\<open>_cache/abc\<close>, it is rejected, and nothing is
  stored.  The branch for the algorithm \<^verbatim>\<open>none\<close> requests \<^verbatim>\<open>file.f\<close>.
\<close>

theorem downloadFile_fetches_cache_route:
  "downloadFile
     (\<lambda>u. if u = ''https://rfo.sh/flags/flags.json'' then Response 200 ''{}'' else Rejected)
     exampleLibraries
     \<lparr>files = Map.empty, requests = [], printed = []\<rparr>
     \<lparr>file_f = ''flags.json'', file_h = \<lparr>algorithm = ''SHA512'', digest = ''abc''\<rparr>\<rparr>
     ''https://rfo.sh/flags/''
   = (Inl (TransportError ''_cache/abc''),
      \<lparr>files = Map.empty, requests = [''_cache/abc''], printed = []\<rparr>)"
  by (simp add: downloadFile_def toUpperCase_def upperOf_def existsSync_def axios_get_def Let_def)

text \<open>
  Claim C3.  A file whose algorithm is MD5 or SHA1, in any case of the letters, is refused
  with the security error; the world is returned as it was, so no request has been made
  and no file has been written.
\<close>

theorem downloadFile_legacy_refused:
  assumes "toUpperCase (algorithm (file_h file)) = ''MD5''
             \<or> toUpperCase (algorithm (file_h file)) = ''SHA1''"
  shows "downloadFile net lib w file baseUrl
           = (Inl (SecurityPolicyViolation (toUpperCase (algorithm (file_h file)))), w)"
  using assms by (auto simp: downloadFile_def)

theorem downloadFile_legacy_refused_witness:
  "downloadFile (\<lambda>u. Response 200 ''{}'') exampleLibraries
     \<lparr>files = Map.empty, requests = [], printed = []\<rparr>
     \<lparr>file_f = ''flags.json'', file_h = \<lparr>algorithm = ''md5'', digest = ''abc''\<rparr>\<rparr>
     ''https://rfo.sh/flags/''
   = (Inl (SecurityPolicyViolation ''MD5''), \<lparr>files = Map.empty, requests = [], printed = []\<rparr>)"
proof -
  let ?file = "\<lparr>file_f = ''flags.json'', file_h = \<lparr>algorithm = ''md5'', digest = ''abc''\<rparr>\<rparr>"
  have h: "toUpperCase (algorithm (file_h ?file)) = ''MD5''
             \<or> toUpperCase (algorithm (file_h ?file)) = ''SHA1''"
    by (simp add: toUpperCase_def upperOf_def)
  have u: "toUpperCase (algorithm (file_h ?file)) = ''MD5''"
    by (simp add: toUpperCase_def upperOf_def)
  show ?thesis
    using downloadFile_legacy_refused [OF h, of "\<lambda>u. Response 200 ''{}''" exampleLibraries
       "\<lparr>files = Map.empty, requests = [], printed = []\<rparr>" "''https://rfo.sh/flags/''"]
    unfolding u .
qed

text \<open>
  Claim C4.  When the digest of the bytes fetched is not the declared one, the call is to
  fail with the integrity error.  The request of this branch names no \<^verbatim>\<open>responseType\<close>
  (the branch of \<^verbatim>\<open>none\<close> asks for \<^verbatim>\<open>arraybuffer\<close>), so axios parses a body that is
  JSON, as flag files are, and \<^verbatim>\<open>Buffer.from\<close> receives an object: it throws its
  TypeError before any digest is computed.  Here the cache route answers with the
  document \<^verbatim>\<open>{}\<close>, whose digest is not the declared one: the call ends in the TypeError,
  not in the integrity error, and nothing is written.
\<close>

theorem downloadFile_parsed_body_type_error:
  "downloadFile (\<lambda>u. Response 200 ''{}'')
     (exampleLibraries\<lparr>createHash := (\<lambda>alg bytes. Some ''xyz'')\<rparr>)
     \<lparr>files = Map.empty, requests = [], printed = []\<rparr>
     \<lparr>file_f = ''flags.json'', file_h = \<lparr>algorithm = ''SHA512'', digest = ''abc''\<rparr>\<rparr>
     ''https://rfo.sh/flags/''
   = (Inl TypeError, \<lparr>files = Map.empty, requests = [''_cache/abc''], printed = []\<rparr>)"
  by (simp add: downloadFile_def toUpperCase_def upperOf_def existsSync_def axios_get_def
        validateStatus_def transformResponse_def stripBOM_def exampleLibraries_def Let_def)

section \<open>Properties of the manifest loader\<close>












section \<open>Properties of the selection\<close>












section \<open>Properties of the merge\<close>

lemma map_of_assign: "map_of (assign key v ps) = (map_of ps)(key \<mapsto> v)"
  by (induction ps) (auto simp: fun_eq_iff)

lemma fst_set_assign: "fst ` set (assign key v ps) = insert key (fst ` set ps)"
proof -
  have "dom (map_of (assign key v ps)) = insert key (dom (map_of ps))"
    by (simp add: map_of_assign)
  then show ?thesis by (simp add: dom_map_of_conv_image_fst)
qed

lemma distinct_assign: "distinct (map fst ps) \<Longrightarrow> distinct (map fst (assign key v ps))"
  by (induction ps) (auto simp: fst_set_assign)

lemma distinct_assignAll:
  "distinct (map fst merged) \<Longrightarrow> distinct (map fst (assignAll merged ps))"
  by (induction ps arbitrary: merged) (auto simp: distinct_assign)

lemma map_of_assignAll:
  "distinct (map fst ps) \<Longrightarrow> map_of (assignAll merged ps) = map_of merged ++ map_of ps"
proof (induction ps arbitrary: merged)
  case Nil
  then show ?case by simp
next
  case (Cons p ps)
  obtain k v where p: "p = (k, v)" by (cases p)
  have "k \<notin> dom (map_of ps)" using Cons.prems p by (auto simp: dom_map_of_conv_image_fst)
  then have "map_of ps k = None" by blast
  then show ?case using Cons p
    by (auto simp: map_of_assign fun_eq_iff map_add_def split: option.splits)
qed

lemma spread_props:
  assumes "distinct (map fst merged)" and "distinct (map fst (ownProps parsed))"
  shows "map_of (spread merged parsed) = map_of merged ++ map_of (ownProps parsed)"
    and "distinct (map fst (spread merged parsed))"
  using assms by (simp_all add: spread_def map_of_assignAll distinct_assignAll)

lemma mergeEach_lastWins:
  assumes "list_all2 (readsAs parse fs) flagFiles docs" and "distinct (map fst merged)"
  shows "\<exists>result. mergeEach parse fs merged flagFiles = Inr result
           \<and> (\<forall>key. map_of result key =
                 (case lastWins docs key of Some v \<Rightarrow> Some v | None \<Rightarrow> map_of merged key))"
  using assms
proof (induction flagFiles docs arbitrary: merged rule: list_all2_induct)
  case Nil
  then show ?case by simp
next
  case (Cons p ps d ds)
  from Cons.hyps(1) obtain content where t: "fs p = Some (File_node content)" "parse content = Some d"
      "distinct (map fst (ownProps d))"
    by (auto simp: readsAs_def split: option.splits node.splits)
  from Cons.IH [OF spread_props(2) [OF Cons.prems t(3)]]
  obtain result where r: "mergeEach parse fs (spread merged d) ps = Inr result"
     "\<And>key. map_of result key =
         (case lastWins ds key of Some v \<Rightarrow> Some v | None \<Rightarrow> map_of (spread merged d) key)"
    by blast
  have "mergeEach parse fs merged (p # ps) = Inr result"
    using t r(1) by (simp add: existsSync_def readFileSync_def)
  moreover have "map_of result key =
                 (case lastWins (d # ds) key of Some v \<Rightarrow> Some v | None \<Rightarrow> map_of merged key)" for key
    using r(2) [of key] spread_props(1) [OF Cons.prems t(3)]
    by (auto simp: map_add_def split: option.splits)
  ultimately show ?case by blast
qed

lemma mergeEach_missing:
  assumes "list_all2 (readsAs parse fs) before docs" and "fs p = None"
  shows "mergeEach parse fs merged (before @ p # after) = Inl (MissingConfigFragment p)"
  using assms
proof (induction before docs arbitrary: merged rule: list_all2_induct)
  case Nil
  then show ?case by (simp add: existsSync_def)
next
  case (Cons q qs d ds)
  from Cons.hyps(1) obtain content where t: "fs q = Some (File_node content)" "parse content = Some d"
    by (auto simp: readsAs_def split: option.splits node.splits)
  then show ?case using Cons by (simp add: existsSync_def readFileSync_def)
qed

text \<open>
  Claim C6.  When every path holds a file that parses, \<^verbatim>\<open>mergeFlagFiles\<close> returns a
  document in which every key has the value of the last file that has the key, taken
  whole.  Two files that parse to \<^verbatim>\<open>{A: a, B: b}\<close> and \<^verbatim>\<open>{B: b', C: c}\<close> merge to
  \<^verbatim>\<open>{A: a, B: b', C: c}\<close>.  A path with no file, after paths that are read, is the error
  that names the path.
\<close>

theorem mergeFlagFiles_last_file_wins:
  "(list_all2 (readsAs parse fs) flagFiles docs \<longrightarrow>
      (\<exists>merged. mergeFlagFiles parse fs this (Some flagFiles) = Inr merged
          \<and> (\<forall>key. map_of merged key = lastWins docs key)))
   \<and> (fs f1 = Some (File_node t1) \<and> parse t1 = Some (JObj [(''A'', a), (''B'', b)])
      \<and> fs f2 = Some (File_node t2) \<and> parse t2 = Some (JObj [(''B'', b'), (''C'', c)])
      \<longrightarrow> mergeFlagFiles parse fs this (Some [f1, f2]) = Inr [(''A'', a), (''B'', b'), (''C'', c)])
   \<and> (list_all2 (readsAs parse fs) before found \<and> fs p = None \<longrightarrow>
        mergeFlagFiles parse fs this (Some (before @ p # after)) = Inl (MissingConfigFragment p))"
proof (intro conjI impI)
  assume "list_all2 (readsAs parse fs) flagFiles docs"
  from mergeEach_lastWins [OF this, of "[]"]
  obtain result where r: "mergeEach parse fs [] flagFiles = Inr result"
    "\<And>key. map_of result key = (case lastWins docs key of Some v \<Rightarrow> Some v | None \<Rightarrow> map_of [] key)"
    by auto
  have "map_of result key = lastWins docs key" for key
    using r(2) [of key] by (cases "lastWins docs key") simp_all
  then show "\<exists>merged. mergeFlagFiles parse fs this (Some flagFiles) = Inr merged
          \<and> (\<forall>key. map_of merged key = lastWins docs key)"
    using r(1) by (simp add: mergeFlagFiles_def)
next
  assume "fs f1 = Some (File_node t1) \<and> parse t1 = Some (JObj [(''A'', a), (''B'', b)])
      \<and> fs f2 = Some (File_node t2) \<and> parse t2 = Some (JObj [(''B'', b'), (''C'', c)])"
  then show "mergeFlagFiles parse fs this (Some [f1, f2]) = Inr [(''A'', a), (''B'', b'), (''C'', c)]"
    by (simp add: mergeFlagFiles_def existsSync_def readFileSync_def spread_def)
next
  assume "list_all2 (readsAs parse fs) before found \<and> fs p = None"
  then have l: "list_all2 (readsAs parse fs) before found" and n: "fs p = None" by simp_all
  show "mergeFlagFiles parse fs this (Some (before @ p # after)) = Inl (MissingConfigFragment p)"
    using mergeEach_missing [OF l n] by (simp add: mergeFlagFiles_def)
qed


theorem mergeFlagFiles_last_file_wins_witness:
  "(\<exists>merged.
      mergeFlagFiles
        (\<lambda>s. if s = ''first'' then Some (JObj [(''A'', JNum (1::int)), (''B'', JNum 2)])
             else if s = ''second'' then Some (JObj [(''B'', JNum 3), (''C'', JNum 4)]) else None)
        [''_cache/f1'' \<mapsto> File_node ''first'', ''_cache/f2'' \<mapsto> File_node ''second'']
        \<lparr>processedFlagList = [], robloxPaths = []\<rparr>
        (Some [''_cache/f1'', ''_cache/f2'']) = Inr merged
      \<and> (\<forall>key. map_of merged key =
            lastWins [JObj [(''A'', JNum 1), (''B'', JNum 2)],
                      JObj [(''B'', JNum 3), (''C'', JNum 4)]] key))
   \<and> mergeFlagFiles
        (\<lambda>s. if s = ''first'' then Some (JObj [(''A'', JNum (1::int)), (''B'', JNum 2)])
             else if s = ''second'' then Some (JObj [(''B'', JNum 3), (''C'', JNum 4)]) else None)
        [''_cache/f1'' \<mapsto> File_node ''first'', ''_cache/f2'' \<mapsto> File_node ''second'']
        \<lparr>processedFlagList = [], robloxPaths = []\<rparr>
        (Some [''_cache/f1'', ''_cache/f2''])
      = Inr [(''A'', JNum 1), (''B'', JNum 3), (''C'', JNum 4)]
   \<and> mergeFlagFiles
        (\<lambda>s. if s = ''first'' then Some (JObj [(''A'', JNum (1::int)), (''B'', JNum 2)])
             else if s = ''second'' then Some (JObj [(''B'', JNum 3), (''C'', JNum 4)]) else None)
        [''_cache/f1'' \<mapsto> File_node ''first'', ''_cache/f2'' \<mapsto> File_node ''second'']
        \<lparr>processedFlagList = [], robloxPaths = []\<rparr>
        (Some ([''_cache/f1''] @ ''_cache/f3'' # [''_cache/f2'']))
      = Inl (MissingConfigFragment ''_cache/f3'')"
proof -
  let ?parse = "\<lambda>s. if s = ''first'' then Some (JObj [(''A'', JNum (1::int)), (''B'', JNum 2)])
          else if s = ''second'' then Some (JObj [(''B'', JNum 3), (''C'', JNum 4)]) else None"
  let ?fs = "[''_cache/f1'' \<mapsto> File_node ''first'', ''_cache/f2'' \<mapsto> File_node ''second'']"
  let ?d1 = "JObj [(''A'', JNum (1::int)), (''B'', JNum 2)]"
  let ?d2 = "JObj [(''B'', JNum (3::int)), (''C'', JNum 4)]"
  note inst = mergeFlagFiles_last_file_wins [where parse = ?parse and fs = ?fs
        and flagFiles = "[''_cache/f1'', ''_cache/f2'']" and docs = "[?d1, ?d2]"
        and this = "\<lparr>processedFlagList = [], robloxPaths = []\<rparr>"
        and ?f1.0 = "''_cache/f1''" and ?t1.0 = "''first''" and a = "JNum 1" and b = "JNum 2"
        and ?f2.0 = "''_cache/f2''" and ?t2.0 = "''second''" and b' = "JNum 3" and c = "JNum 4"
        and before = "[''_cache/f1'']" and found = "[?d1]" and p = "''_cache/f3''" and after = "[''_cache/f2'']"]
  have h1: "list_all2 (readsAs ?parse ?fs) [''_cache/f1'', ''_cache/f2''] [?d1, ?d2]"
    by (simp add: readsAs_def)
  have h2: "?fs ''_cache/f1'' = Some (File_node ''first'')
      \<and> ?parse ''first'' = Some (JObj [(''A'', JNum 1), (''B'', JNum 2)])
      \<and> ?fs ''_cache/f2'' = Some (File_node ''second'')
      \<and> ?parse ''second'' = Some (JObj [(''B'', JNum 3), (''C'', JNum 4)])"
    by simp
  have h3: "list_all2 (readsAs ?parse ?fs) [''_cache/f1''] [?d1] \<and> ?fs ''_cache/f3'' = None"
    by (simp add: readsAs_def)
  show ?thesis
    using inst [THEN conjunct1, THEN mp, OF h1]
      inst [THEN conjunct2, THEN conjunct1, THEN mp, OF h2]
      inst [THEN conjunct2, THEN conjunct2, THEN mp, OF h3]
    by (intro conjI)
qed

section \<open>Operations on an empty list of processed flag lists\<close>

text \<open>
  Claim C10.  With no processed flag list, \<^verbatim>\<open>getFlagFiles\<close> throws, so do
  \<^verbatim>\<open>mergeFlagFiles\<close> and \<^verbatim>\<open>dumpFlags\<close> called without an argument, and so does
  \<^verbatim>\<open>applyFlags\<close>, which leaves the file system as it was.
\<close>

theorem empty_processedFlagList_throws:
  assumes "processedFlagList this = []"
  shows "getFlagFiles this = Inl NotPreprocessed
       \<and> mergeFlagFiles parse fs this None = Inl NotPreprocessed
       \<and> dumpFlags parse fs this None = Inl NotPreprocessed
       \<and> applyFlags parse stringify fs this
           = (Inl (if robloxPaths this = [] then NoRobloxVersions else NoFlagsFound), fs)"
  using assms
  by (simp add: getFlagFiles_def hasProcessedFlags_def mergeFlagFiles_def dumpFlags_def applyFlags_def)

theorem empty_processedFlagList_throws_witness:
  "getFlagFiles \<lparr>processedFlagList = [], robloxPaths = [''C:/Roblox'']\<rparr> = Inl NotPreprocessed
   \<and> mergeFlagFiles (\<lambda>s. Some (JObj [] :: int jv)) Map.empty
        \<lparr>processedFlagList = [], robloxPaths = [''C:/Roblox'']\<rparr> None = Inl NotPreprocessed
   \<and> dumpFlags (\<lambda>s. Some (JObj [] :: int jv)) Map.empty
        \<lparr>processedFlagList = [], robloxPaths = [''C:/Roblox'']\<rparr> None = Inl NotPreprocessed
   \<and> applyFlags (\<lambda>s. Some (JObj [] :: int jv)) (\<lambda>merged. ''{}'') Map.empty
        \<lparr>processedFlagList = [], robloxPaths = [''C:/Roblox'']\<rparr> = (Inl NoFlagsFound, Map.empty)"
proof -
  have h: "processedFlagList \<lparr>processedFlagList = [], robloxPaths = [''C:/Roblox'']\<rparr> = []"
    by simp
  show ?thesis
    using empty_processedFlagList_throws [OF h, of "\<lambda>s. Some (JObj [] :: int jv)" Map.empty
        "\<lambda>merged. ''{}''"]
    by simp
qed

section \<open>Properties of the defaulting utility\<close>

lemma isRecord_cases: "isRecord v \<Longrightarrow> (\<exists>ps. v = JObj ps) \<or> (\<exists>ps. v = JArr ps)"
  by (cases v) (simp_all add: isRecord_def)

lemma getProp_record: "isRecord obj \<Longrightarrow> getProp obj key = Inr (readOf obj key)"
  by (cases obj) (simp_all add: isRecord_def readOf_def split: option.splits)

lemma withProps_record [simp]:
  "isRecord obj \<Longrightarrow> isRecord (withProps obj ps)"
  "isRecord obj \<Longrightarrow> ownProps (withProps obj ps) = ps"
  "isRecord obj \<Longrightarrow> withProps (withProps obj ps) qs = withProps obj qs"
  "isRecord obj \<Longrightarrow> withProps obj (ownProps obj) = obj"
  by (cases obj; simp add: isRecord_def)+

lemma isRecord_typeofObject: "isRecord v \<Longrightarrow> typeofObject v"
  by (cases v) (simp_all add: isRecord_def)

lemma typeofObject_cases:
  "typeofObject v \<Longrightarrow> v = JNull \<or> isRecord v \<or> (\<exists>b. v = JBuiltin b)"
  by (cases v) (simp_all add: isRecord_def)

lemma assign_same: "map_of ps key = Some x \<Longrightarrow> assign key x ps = ps"
  by (induction ps) (auto split: if_splits)

text \<open>Reads of a record.\<close>

lemma readOf_own:
  "isRecord obj \<Longrightarrow> \<not> reserved obj key \<Longrightarrow> map_of (ownProps obj) key = Some x \<Longrightarrow>
     readOf obj key = x"
  by (cases obj) (auto simp: isRecord_def readOf_def reserved_def)

lemma readOf_length: "readOf (JArr ps) ''length'' = JNum (of_nat (arrayLength ps))"
  by (simp add: readOf_def)

lemma readOf_proto:
  "isRecord obj \<Longrightarrow> reserved obj key \<Longrightarrow> key \<noteq> ''length'' \<Longrightarrow>
     readOf obj key = JBuiltin (case obj of JArr ps \<Rightarrow> ArrayPrototype | _ \<Rightarrow> ObjectPrototype)"
  by (cases obj) (auto simp: isRecord_def readOf_def reserved_def inherited_def)

lemma reserved_withProps:
  "isRecord obj \<Longrightarrow> map_of ps ''__proto__'' = None \<longleftrightarrow> map_of (ownProps obj) ''__proto__'' = None \<Longrightarrow>
     reserved (withProps obj ps) key = reserved obj key"
  by (cases obj) (auto simp: isRecord_def reserved_def)

lemma reserved_written:
  "isRecord obj \<Longrightarrow> reserved (written obj k x) key = reserved obj key"
  unfolding written_def
  apply (cases "reserved obj k")
   apply simp
  apply (simp only: if_False)
  apply (rule reserved_withProps)
   apply assumption
  apply (auto simp: map_of_assign reserved_def)
  done

lemma isRecord_written [simp]: "isRecord obj \<Longrightarrow> isRecord (written obj k x)"
  by (simp add: written_def)

lemma ownProps_written:
  "isRecord obj \<Longrightarrow> ownProps (written obj k x) =
     (if reserved obj k then ownProps obj else assign k x (ownProps obj))"
  by (simp add: written_def)

lemma withProps_written:
  "isRecord obj \<Longrightarrow> withProps obj (ownProps (written obj k x)) = written obj k x"
  by (simp add: written_def)

lemma readOf_written_other:
  "isRecord obj \<Longrightarrow> \<not> reserved obj key \<Longrightarrow> key \<noteq> k \<Longrightarrow>
     readOf (written obj k x) key = readOf obj key"
  by (cases obj) (auto simp: isRecord_def readOf_def reserved_def written_def map_of_assign)

lemma readOf_written_same:
  "isRecord obj \<Longrightarrow> \<not> reserved obj k \<Longrightarrow> readOf (written obj k x) k = x"
  by (cases obj) (auto simp: isRecord_def readOf_def reserved_def written_def map_of_assign)

text \<open>Writes to a record.\<close>

lemma defaultLoop_other:
  assumes "\<not> isRecord obj" and "defaultLoop obj dflt keys = Inr r"
  shows "r = obj"
  using assms
proof (induction keys)
  case Nil
  then show ?case by simp
next
  case (Cons key keys)
  from Cons.prems(2) obtain v d x obj' where
      s: "setProp obj key x = Inr obj'" "defaultLoop obj' dflt keys = Inr r"
    by (auto split: sum.splits if_splits)
  have "obj' = obj" using s(1) Cons.prems(1)
    by (cases obj) (auto simp: isRecord_def split: if_splits)
  then show ?case using Cons s by simp
qed

lemma defaultRecursive_other:
  "\<not> isRecord obj \<Longrightarrow> defaultRecursive obj dflt = Inr r \<Longrightarrow> r = obj"
  using defaultLoop_other by simp

lemma mergedEntry_builtin:
  "mergedEntry (JBuiltin b) d = Inr x \<Longrightarrow> x = JBuiltin b"
  using defaultRecursive_other [of "JBuiltin b" d x]
  by (auto simp: mergedEntry_def nullish_def isRecord_def split: if_splits)

lemma mergedEntry_number:
  "mergedEntry (JNum n) d = Inr (JNum n)"
  by (simp add: mergedEntry_def nullish_def)

lemma setProp_record:
  assumes "isRecord obj" and "mergedEntry (readOf obj key) d = Inr x"
  shows "setProp obj key x = Inr (written obj key x)"
proof (cases "reserved obj key")
  case False
  then show ?thesis using assms(1)
    by (cases obj) (auto simp: isRecord_def reserved_def written_def)
next
  case True
  show ?thesis
  proof (cases "key = ''length''")
    case l: True
    then obtain ps where ps: "obj = JArr ps"
      using True assms(1) by (cases obj) (auto simp: reserved_def isRecord_def)
    then have "x = JNum (of_nat (arrayLength ps))"
      using assms(2) l by (simp add: readOf_length mergedEntry_number)
    then show ?thesis using ps l True by (simp add: written_def)
  next
    case l: False
    let ?p = "case obj of JArr ps \<Rightarrow> ArrayPrototype | _ \<Rightarrow> ObjectPrototype"
    have "x = JBuiltin ?p"
      using assms(2) readOf_proto [OF assms(1) True l] mergedEntry_builtin by metis
    then show ?thesis using True l assms(1)
      by (cases obj) (auto simp: isRecord_def reserved_def written_def)
  qed
qed

lemma defaultLoop_record:
  assumes "isRecord obj"
  shows "defaultLoop obj dflt (key # keys) =
           (case getProp dflt key of
              Inl e \<Rightarrow> Inl e
            | Inr d \<Rightarrow>
                (case mergedEntry (readOf obj key) d of
                   Inl e \<Rightarrow> Inl e
                 | Inr x \<Rightarrow> defaultLoop (written obj key x) dflt keys))"
proof (cases "getProp dflt key")
  case (Inl e)
  then show ?thesis by (simp add: getProp_record [OF assms])
next
  case (Inr d)
  show ?thesis
  proof (cases "mergedEntry (readOf obj key) d")
    case e: (Inl e)
    then show ?thesis using Inr
      by (auto simp: getProp_record [OF assms] mergedEntry_def split: if_splits)
  next
    case x: (Inr x)
    note s = setProp_record [OF assms x]
    show ?thesis using Inr x s
      by (auto simp: getProp_record [OF assms] mergedEntry_def split: if_splits)
  qed
qed

declare defaultRecursive.simps [simp del]

declare defaultLoop.simps(2) [simp del]

declare nullFacesObject.simps [simp del]

lemma defaultLoop_shape:
  "isRecord obj \<Longrightarrow> defaultLoop obj dflt keys = Inr r \<Longrightarrow>
     isRecord r \<and> withProps obj (ownProps r) = r \<and> (\<forall>key. reserved r key = reserved obj key)"
proof (induction keys arbitrary: obj)
  case Nil
  then show ?case by simp
next
  case (Cons key keys)
  from Cons.prems obtain d x where
      s: "defaultLoop (written obj key x) dflt keys = Inr r"
    by (auto simp: defaultLoop_record split: sum.splits)
  have w: "isRecord (written obj key x)" using Cons.prems(1) by simp
  from Cons.IH [OF w s] have
      a: "isRecord r" and b: "withProps (written obj key x) (ownProps r) = r"
      and c: "\<forall>k. reserved r k = reserved (written obj key x) k"
    by auto
  have "withProps obj (ownProps r) = r"
    using b Cons.prems(1) by (auto simp: written_def split: if_splits)
  then show ?case using a c reserved_written [OF Cons.prems(1)] by simp
qed

lemma defaultRecursive_typeofObject:
  assumes "defaultRecursive v d = Inr x" and "typeofObject v"
  shows "typeofObject x"
proof (cases "isRecord v")
  case True
  then show ?thesis
    using assms defaultLoop_shape [of v d "forInKeys d" x]
    by (simp add: defaultRecursive.simps isRecord_typeofObject)
next
  case False
  then show ?thesis
    using assms defaultRecursive_other [OF False assms(1)] by simp
qed


text \<open>When merging what the object gives under every key named changes nothing, the loop
  returns the object as it is.\<close>

lemma defaultLoop_fixed:
  assumes "isRecord obj"
      and "\<forall>key \<in> set keys. \<exists>d x. getProp dflt key = Inr d
              \<and> mergedEntry (readOf obj key) d = Inr x \<and> written obj key x = obj"
    shows "defaultLoop obj dflt keys = Inr obj"
  using assms(2)
proof (induction keys)
  case Nil
  then show ?case by simp
next
  case (Cons key keys)
  then obtain d x where k: "getProp dflt key = Inr d" "mergedEntry (readOf obj key) d = Inr x"
      "written obj key x = obj"
    by auto
  then show ?case using Cons by (simp add: defaultLoop_record [OF assms(1)])
qed

lemma mergedEntry_reserved:
  assumes "isRecord obj" and "reserved obj key"
      and "withProps obj (ownProps r) = r" and "isRecord r" and "reserved r key"
      and "mergedEntry (readOf obj key) d = Inr x"
    shows "\<exists>y. mergedEntry (readOf r key) d = Inr y"
proof (cases "key = ''length''")
  case True
  then obtain ps where "obj = JArr ps"
    using assms(1,2) by (cases obj) (auto simp: reserved_def isRecord_def)
  then obtain qs where "r = JArr qs" using assms(3) by (cases r) auto
  then show ?thesis using True by (simp add: readOf_length mergedEntry_number)
next
  case False
  have "(case r of JArr ps \<Rightarrow> ArrayPrototype | _ \<Rightarrow> ObjectPrototype)
          = (case obj of JArr ps \<Rightarrow> ArrayPrototype | _ \<Rightarrow> ObjectPrototype)"
    using assms(1,3,4) by (cases obj; cases r) (auto simp: isRecord_def)
  then have "readOf r key = readOf obj key"
    using readOf_proto [OF assms(1,2) False] readOf_proto [OF assms(4,5) False] by simp
  then show ?thesis using assms(6) by simp
qed

lemma defaultLoop_entries:
  assumes "isRecord obj"
      and "\<forall>key \<in> set keys. \<forall>d v x. getProp dflt key = Inr d \<longrightarrow>
              mergedEntry v d = Inr x \<longrightarrow> mergedEntry x d = Inr x"
      and "defaultLoop obj dflt keys = Inr r"
    shows "(\<forall>key \<in> set keys. \<exists>d x. getProp dflt key = Inr d
              \<and> (if reserved obj key then mergedEntry (readOf r key) d = Inr x
                  else mergedEntry (readOf obj key) d = Inr x
                       \<and> map_of (ownProps r) key = Some x))
         \<and> (\<forall>key. key \<notin> set keys \<longrightarrow> map_of (ownProps r) key = map_of (ownProps obj) key)"
  using assms
proof (induction keys arbitrary: obj)
  case Nil
  then show ?case by simp
next
  case (Cons k0 keys)
  let ?ps = "ownProps obj"
  from Cons.prems(1,3) obtain d0 x0 where
      d0: "getProp dflt k0 = Inr d0"
      and x0: "mergedEntry (readOf obj k0) d0 = Inr x0"
      and run: "defaultLoop (written obj k0 x0) dflt keys = Inr r"
    by (auto simp: defaultLoop_record split: sum.splits)
  let ?obj1 = "written obj k0 x0"
  have rec1: "isRecord ?obj1" using Cons.prems(1) by simp
  have ps1: "ownProps ?obj1 = (if reserved obj k0 then ?ps else assign k0 x0 ?ps)"
    using Cons.prems(1) by (simp add: ownProps_written)
  have res1: "reserved ?obj1 key = reserved obj key" for key
    using reserved_written [OF Cons.prems(1)] by simp
  have E: "\<forall>key \<in> set keys. \<forall>d v x. getProp dflt key = Inr d \<longrightarrow>
              mergedEntry v d = Inr x \<longrightarrow> mergedEntry x d = Inr x"
    using Cons.prems(2) by simp
  have settled0: "mergedEntry x0 d0 = Inr x0"
    using Cons.prems(2) d0 x0 by auto
  note IH = Cons.IH [OF rec1 E run]
  note shape = defaultLoop_shape [OF rec1 run]
  have shape0: "withProps obj (ownProps r) = r"
    using defaultLoop_shape [OF Cons.prems(1,3)] by simp
  have a: "\<exists>d x. getProp dflt key = Inr d
              \<and> (if reserved obj key then mergedEntry (readOf r key) d = Inr x
                  else mergedEntry (readOf obj key) d = Inr x
                       \<and> map_of (ownProps r) key = Some x)" if "key \<in> set (k0 # keys)" for key
  proof (cases "key \<in> set keys")
    case True
    with IH obtain d x where dx: "getProp dflt key = Inr d"
        "if reserved ?obj1 key then mergedEntry (readOf r key) d = Inr x
         else mergedEntry (readOf ?obj1 key) d = Inr x \<and> map_of (ownProps r) key = Some x"
      by blast
    show ?thesis
    proof (cases "reserved obj key")
      case r: True
      then show ?thesis using dx res1 by auto
    next
      case r: False
      then have m: "mergedEntry (readOf ?obj1 key) d = Inr x" "map_of (ownProps r) key = Some x"
        using dx(2) res1 by auto
      show ?thesis
      proof (cases "key = k0")
        case k: True
        then have "d = d0" using dx(1) d0 by simp
        moreover have "readOf ?obj1 key = x0"
          using readOf_written_same [OF Cons.prems(1)] r k by simp
        ultimately have "x = x0" using m(1) settled0 by simp
        then show ?thesis using k d0 x0 m(2) r by auto
      next
        case k: False
        then have "readOf ?obj1 key = readOf obj key"
          using readOf_written_other [OF Cons.prems(1) r] by simp
        then show ?thesis using dx(1) m r by auto
      qed
    qed
  next
    case False
    then have k: "key = k0" using that by simp
    have frame: "map_of (ownProps r) k0 = map_of (ownProps ?obj1) k0"
      using IH False k by simp
    show ?thesis
    proof (cases "reserved obj k0")
      case r: True
      have "reserved r k0" using shape r res1 by simp
      then obtain y where "mergedEntry (readOf r k0) d0 = Inr y"
        using mergedEntry_reserved [OF Cons.prems(1) r shape0 _ _ x0] shape by auto
      then show ?thesis using k r d0 by auto
    next
      case r: False
      then have "map_of (ownProps r) k0 = Some x0"
        using frame ps1 by (simp add: map_of_assign)
      then show ?thesis using k r d0 x0 by auto
    qed
  qed
  have b: "map_of (ownProps r) key = map_of ?ps key" if "key \<notin> set (k0 # keys)" for key
    using IH that ps1 by (simp add: map_of_assign)
  show ?case using a b by blast
qed

lemma getProp_forInKeys:
  "key \<in> set (forInKeys v) \<Longrightarrow> \<exists>x. map_of (ownProps v) key = Some x"
proof -
  assume "key \<in> set (forInKeys v)"
  then have "key \<in> fst ` set (ownProps v)" by (simp add: forInKeys_def)
  then show ?thesis by (metis domD dom_map_of_conv_image_fst)
qed

lemma written_settled:
  assumes "isRecord r"
      and "if reserved r key then True else map_of (ownProps r) key = Some x"
    shows "written r key x = r"
  using assms assign_same [of "ownProps r" key x]
  by (auto simp: written_def split: if_splits)

lemma defaultRecursive_self:
  "typeofObject d \<Longrightarrow> defaultRecursive d d = Inr d"
proof (induction "weight d" arbitrary: d rule: less_induct)
  case less
  show ?case
  proof (cases "isRecord d")
    case False
    then have "forInKeys d = []"
      using less.prems by (cases d) (auto simp: forInKeys_def isRecord_def)
    then show ?thesis by (simp add: defaultRecursive.simps)
  next
    case True
    have "\<exists>c x. getProp d key = Inr c \<and> mergedEntry (readOf d key) c = Inr x
              \<and> written d key x = d" if "key \<in> set (forInKeys d)" for key
    proof -
      let ?c = "readOf d key"
      have c: "getProp d key = Inr ?c" using getProp_record [OF True] .
      have m: "mergedEntry ?c ?c = Inr ?c"
      proof (cases "typeofObject ?c")
        case t: True
        then have "weight ?c < weight d" using weight_getProp_less [OF c] by simp
        then show ?thesis using less.hyps t by (simp add: mergedEntry_def)
      next
        case False
        then show ?thesis by (simp add: mergedEntry_def nullish_def)
      qed
      from getProp_forInKeys [OF that] obtain y where y: "map_of (ownProps d) key = Some y"
        by blast
      have "written d key ?c = d"
      proof (rule written_settled [OF True])
        show "if reserved d key then True else map_of (ownProps d) key = Some ?c"
          using readOf_own [OF True _ y] y by auto
      qed
      then show ?thesis using c m by blast
    qed
    then show ?thesis
      using defaultLoop_fixed [OF True, of "forInKeys d" d]
      by (simp add: defaultRecursive.simps)
  qed
qed

lemma mergedEntry_settles:
  assumes stable: "\<And>v r. defaultRecursive v d = Inr r \<Longrightarrow> defaultRecursive r d = Inr r"
      and run: "mergedEntry v d = Inr x"
    shows "mergedEntry x d = Inr x"
proof (cases "typeofObject v \<and> typeofObject d")
  case True
  then have r: "defaultRecursive v d = Inr x" using run by (simp add: mergedEntry_def)
  then have "typeofObject x" using defaultRecursive_typeofObject True by blast
  then show ?thesis using stable [OF r] True by (simp add: mergedEntry_def)
next
  case False
  then have x: "x = nullish v d" using run by (auto simp: mergedEntry_def)
  show ?thesis
  proof (cases "v = JNull \<or> v = JUndefined")
    case True
    then have "x = d" using x by (simp add: nullish_def)
    then show ?thesis
      using defaultRecursive_self [of d] by (simp add: mergedEntry_def nullish_def)
  next
    case False
    then have "x = v" using x by (simp add: nullish_def)
    then show ?thesis using \<open>\<not> (typeofObject v \<and> typeofObject d)\<close> False
      by (auto simp: mergedEntry_def nullish_def)
  qed
qed

lemma defaultRecursive_stable:
  "defaultRecursive obj dflt = Inr r \<Longrightarrow> defaultRecursive r dflt = Inr r"
proof (induction "weight dflt" arbitrary: obj dflt r rule: less_induct)
  case less
  show ?case
  proof (cases "isRecord obj")
    case False
    then show ?thesis using less.prems defaultRecursive_other [OF False less.prems] by simp
  next
    case rec: True
    have run: "defaultLoop obj dflt (forInKeys dflt) = Inr r"
      using less.prems by (simp add: defaultRecursive.simps)
    have E: "\<forall>key \<in> set (forInKeys dflt). \<forall>d v x. getProp dflt key = Inr d \<longrightarrow>
              mergedEntry v d = Inr x \<longrightarrow> mergedEntry x d = Inr x"
    proof (intro ballI allI impI)
      fix key d v x
      assume d: "getProp dflt key = Inr d" and x: "mergedEntry v d = Inr x"
      show "mergedEntry x d = Inr x"
      proof (cases "typeofObject d")
        case True
        then have "weight d < weight dflt" using weight_getProp_less [OF d] by simp
        then have "\<And>v r. defaultRecursive v d = Inr r \<Longrightarrow> defaultRecursive r d = Inr r"
          using less.hyps by blast
        then show ?thesis using mergedEntry_settles x by blast
      next
        case False
        then have "x = nullish v d" using x by (simp add: mergedEntry_def)
        then show ?thesis using False by (simp add: mergedEntry_def nullish_def)
      qed
    qed
    note ent = defaultLoop_entries [OF rec E run]
    note shape = defaultLoop_shape [OF rec run]
    have "\<forall>key \<in> set (forInKeys dflt). \<exists>d x. getProp dflt key = Inr d
              \<and> mergedEntry (readOf r key) d = Inr x \<and> written r key x = r"
    proof
      fix key assume k: "key \<in> set (forInKeys dflt)"
      with ent obtain d x where dx: "getProp dflt key = Inr d"
          "if reserved obj key then mergedEntry (readOf r key) d = Inr x
           else mergedEntry (readOf obj key) d = Inr x \<and> map_of (ownProps r) key = Some x"
        by blast
      show "\<exists>d x. getProp dflt key = Inr d
              \<and> mergedEntry (readOf r key) d = Inr x \<and> written r key x = r"
      proof (cases "reserved obj key")
        case True
        then have "reserved r key" using shape by simp
        then have "written r key x = r" by (simp add: written_def)
        then show ?thesis using dx True by auto
      next
        case False
        then have m: "mergedEntry (readOf obj key) d = Inr x" "map_of (ownProps r) key = Some x"
          using dx(2) by auto
        have nr: "\<not> reserved r key" using False shape by simp
        have "readOf r key = x" using readOf_own [OF _ nr m(2)] shape by simp
        moreover have "mergedEntry x d = Inr x" using E k dx(1) m(1) by blast
        moreover have "written r key x = r"
          using written_settled [of r key x] shape nr m(2) by simp
        ultimately show ?thesis using dx(1) by auto
      qed
    qed
    then show ?thesis
      using defaultLoop_fixed [of r "forInKeys dflt" dflt] shape
      by (simp add: defaultRecursive.simps)
  qed
qed










lemmas evalDefault = defaultRecursive.simps defaultLoop.simps(2) forInKeys_def nullish_def
  inherited_def objectPrototypeNames_def arrayPrototypeNames_def







lemma getProp_defined: "forInKeys dflt \<noteq> [] \<Longrightarrow> \<exists>d. getProp dflt key = Inr d"
  by (cases dflt) (auto simp: forInKeys_def split: option.splits)

lemma defaultLoop_succeeds:
  assumes "isRecord obj"
      and "\<forall>key \<in> set keys. \<exists>d x. getProp dflt key = Inr d
              \<and> mergedEntry (readOf obj key) d = Inr x"
    shows "\<exists>r. defaultLoop obj dflt keys = Inr r"
  using assms
proof (induction keys arbitrary: obj)
  case Nil
  then show ?case by simp
next
  case (Cons k0 keys)
  from Cons.prems(2) obtain d0 x0 where d0: "getProp dflt k0 = Inr d0"
      and x0: "mergedEntry (readOf obj k0) d0 = Inr x0"
    by auto
  let ?obj1 = "written obj k0 x0"
  have rec1: "isRecord ?obj1" using Cons.prems(1) by simp
  have settled0: "mergedEntry x0 d0 = Inr x0"
    using mergedEntry_settles [OF defaultRecursive_stable x0] .
  have "\<forall>key \<in> set keys. \<exists>d x. getProp dflt key = Inr d
              \<and> mergedEntry (readOf ?obj1 key) d = Inr x"
  proof
    fix key assume "key \<in> set keys"
    with Cons.prems(2) obtain d x where dx: "getProp dflt key = Inr d"
        "mergedEntry (readOf obj key) d = Inr x"
      by auto
    have "\<exists>y. mergedEntry (readOf ?obj1 key) d = Inr y"
    proof (cases "reserved obj key")
      case True
      show ?thesis
      proof (rule mergedEntry_reserved [OF Cons.prems(1) True _ rec1 _ dx(2)])
        show "withProps obj (ownProps ?obj1) = ?obj1"
          using withProps_written [OF Cons.prems(1)] .
        show "reserved ?obj1 key" using reserved_written [OF Cons.prems(1)] True by simp
      qed
    next
      case False
      show ?thesis
      proof (cases "key = k0")
        case True
        then have "readOf ?obj1 key = x0"
          using readOf_written_same [OF Cons.prems(1)] False by simp
        moreover have "d = d0" using True dx(1) d0 by simp
        ultimately show ?thesis using settled0 by simp
      next
        case k: False
        then show ?thesis using readOf_written_other [OF Cons.prems(1) False k] dx(2) by simp
      qed
    qed
    then show "\<exists>d x. getProp dflt key = Inr d \<and> mergedEntry (readOf ?obj1 key) d = Inr x"
      using dx(1) by blast
  qed
  from Cons.IH [OF rec1 this] obtain r where "defaultLoop ?obj1 dflt keys = Inr r" by blast
  then show ?case using d0 x0 by (simp add: defaultLoop_record [OF Cons.prems(1)])
qed

text \<open>
  Claim C9 as the code has it.  The claim says that the utility never throws, also when
  an entry of the value is \<^verbatim>\<open>null\<close> and the entry of the defaults is an object.
  \<^verbatim>\<open>typeof null\<close> is \<^verbatim>\<open>'object'\<close>, so the utility calls itself on \<^verbatim>\<open>null\<close> and reads a
  property of it: the configuration \<^verbatim>\<open>{hashChecks: null}\<close> makes \<^verbatim>\<open>loadConfig\<close> throw a
  TypeError.
\<close>

theorem defaultRecursive_throws:
  "defaultRecursive (JObj [(''hashChecks'', JNull)]) (defaultConfig :: int jv) = Inl TypeError
   \<and> loadConfig (\<lambda>s. if s = ''{hashChecks: null}'' then Some (JObj [(''hashChecks'', JNull)]) else None)
        [''./config.json5'' \<mapsto> File_node ''{hashChecks: null}''] ''./config.json5''
      = (Inl TypeError :: error + int jv)"
  by (simp add: evalDefault defaultConfig_def loadConfig_def existsSync_def readFileSync_def
        jsArray_def)

text \<open>
  Claim C9, amended.  The utility returns an object or an array, without throwing,
  whenever its first argument is an object or an array in which no \<^verbatim>\<open>null\<close> faces an
  object of the defaults.
\<close>

theorem defaultRecursive_returns:
  assumes "isRecord obj" and "\<not> nullFacesObject obj dflt"
  shows "\<exists>r. defaultRecursive obj dflt = Inr r \<and> isRecord r"
  using assms
proof (induction "weight dflt" arbitrary: obj dflt rule: less_induct)
  case less
  have "\<exists>d x. getProp dflt key = Inr d \<and> mergedEntry (readOf obj key) d = Inr x"
    if key: "key \<in> set (forInKeys dflt)" for key
  proof -
    have "forInKeys dflt \<noteq> []" using key by auto
    from getProp_defined [OF this] obtain d where d: "getProp dflt key = Inr d" by blast
    let ?v = "readOf obj key"
    have v: "getProp obj key = Inr ?v" using less.prems(1) by (simp add: getProp_record)
    have "\<exists>x. mergedEntry ?v d = Inr x"
    proof (cases "typeofObject ?v \<and> typeofObject d")
      case False
      then show ?thesis by (auto simp: mergedEntry_def)
    next
      case True
      have no: "\<not> (if isRecord ?v then nullFacesObject ?v d else forInKeys d \<noteq> [])"
        using less.prems(2) key v d True
        by (subst (asm) nullFacesObject.simps) (auto simp: list_ex_iff)
      show ?thesis
      proof (cases "isRecord ?v")
        case n: False
        then have "forInKeys d = []" using no by simp
        then show ?thesis using True by (simp add: mergedEntry_def defaultRecursive.simps)
      next
        case n: True
        moreover have "\<not> nullFacesObject ?v d" using no n by simp
        moreover have "weight d < weight dflt" using weight_getProp_less [OF d] True by simp
        ultimately show ?thesis using less.hyps True by (auto simp: mergedEntry_def)
      qed
    qed
    then show ?thesis using d by blast
  qed
  then obtain r where r: "defaultLoop obj dflt (forInKeys dflt) = Inr r"
    using defaultLoop_succeeds [OF less.prems(1), of "forInKeys dflt" dflt] by blast
  then show ?case
    using defaultLoop_shape [OF less.prems(1) r] by (simp add: defaultRecursive.simps)
qed

theorem defaultRecursive_returns_witness:
  "\<exists>r. defaultRecursive
          (JObj [(''hashChecks'', JObj [(''update'', JBool True)]), (''dev'', JNull)])
          (defaultConfig :: int jv) = Inr r \<and> isRecord r"
proof -
  let ?obj = "JObj [(''hashChecks'', JObj [(''update'', JBool True)]), (''dev'', JNull)] :: int jv"
  have h1: "isRecord ?obj" by (simp add: isRecord_def)
  have h2: "\<not> nullFacesObject ?obj defaultConfig"
    by (simp add: nullFacesObject.simps defaultConfig_def forInKeys_def jsArray_def isRecord_def
          inherited_def objectPrototypeNames_def)
  show ?thesis using defaultRecursive_returns [OF h1 h2] .
qed

end
